theory Spec2Isabelle
  imports Main "HOL-Library.Word"
begin

text \<open>
  A model of the Azure Blob Storage cache provider and of its archive utilities: blob-name
  sanitization, resolution of a primary key and restore keys to a stored blob, save and
  restore with their error handling, and the archive file names. Asynchronous methods are
  functions from the world to an outcome and a new world; an outcome is a value, a thrown
  error, or a promise that never settles.
\<close>

section \<open>JavaScript strings\<close>

text \<open>
  A JavaScript string is a sequence of UTF-16 code units; \<open>length\<close>, \<open>substring\<close>,
  \<open>startsWith\<close>, \<open>endsWith\<close> and a regular expression without the \<open>u\<close> flag all work on
  code units. String literals of the source are written \<open>js ''...''\<close>.
\<close>

type_synonym jsstring = "16 word list"

definition js :: "string \<Rightarrow> jsstring" where
  "js s = map of_char s"

definition startsWith :: "jsstring \<Rightarrow> jsstring \<Rightarrow> bool" where
  "startsWith s p \<longleftrightarrow> take (length p) s = p"

definition endsWith :: "jsstring \<Rightarrow> jsstring \<Rightarrow> bool" where
  "endsWith s p \<longleftrightarrow> length p \<le> length s \<and> drop (length s - length p) s = p"

text \<open>\<open>s.substring(0, n)\<close> for a number \<open>n \<ge> 0\<close>.\<close>

definition substring0 :: "jsstring \<Rightarrow> nat \<Rightarrow> jsstring" where
  "substring0 s n = take n s"

text \<open>The class \<open>\s\<close> of an ECMAScript regular expression: WhiteSpace and LineTerminator.\<close>

definition isWhiteSpace :: "16 word \<Rightarrow> bool" where
  "isWhiteSpace c \<longleftrightarrow>
     c = 0x0009 \<or> c = 0x000A \<or> c = 0x000B \<or> c = 0x000C \<or> c = 0x000D \<or> c = 0x0020 \<or>
     c = 0x00A0 \<or> c = 0x1680 \<or> (0x2000 \<le> c \<and> c \<le> 0x200A) \<or> c = 0x2028 \<or>
     c = 0x2029 \<or> c = 0x202F \<or> c = 0x205F \<or> c = 0x3000 \<or> c = 0xFEFF"

definition underscore :: "16 word" where
  "underscore = 0x5F"

text \<open>\<open>s.replace(/c/g, "_")\<close> for a single code unit \<open>c\<close>.\<close>

definition replaceAll :: "16 word \<Rightarrow> jsstring \<Rightarrow> jsstring" where
  "replaceAll c s = map (\<lambda>x. if x = c then underscore else x) s"

text \<open>\<open>s.replace(/\s+/g, "_")\<close>: every maximal run of white space becomes one underscore.\<close>

function replaceWhitespaceRuns :: "jsstring \<Rightarrow> jsstring" where
  "replaceWhitespaceRuns [] = []"
| "replaceWhitespaceRuns (c # cs) =
     (if isWhiteSpace c then underscore # replaceWhitespaceRuns (dropWhile isWhiteSpace cs)
      else c # replaceWhitespaceRuns cs)"
  by pat_completeness auto
termination
  by (relation "measure length") (auto simp: le_imp_less_Suc length_dropWhile_le)

text \<open>Lower-case hexadecimal digits, as \<open>digest("hex")\<close> prints them.\<close>

definition isHexDigit :: "16 word \<Rightarrow> bool" where
  "isHexDigit c \<longleftrightarrow> (0x30 \<le> c \<and> c \<le> 0x39) \<or> (0x61 \<le> c \<and> c \<le> 0x66)"

definition isHexDigest :: "jsstring \<Rightarrow> bool" where
  "isHexDigest h \<longleftrightarrow> length h = 64 \<and> list_all isHexDigit h"

text \<open>
  \<open>path.join(a, b)\<close> on a POSIX runner, for a last segment \<open>b\<close> that is a plain file name:
  the two parts separated by one slash. Node's normalisation of \<open>a\<close> is not modelled.
\<close>

definition path_join :: "jsstring \<Rightarrow> jsstring \<Rightarrow> jsstring" where
  "path_join a b = a @ js ''/'' @ b"


section \<open>ArchiveUtils: compression methods\<close>

datatype CompressionMethod = gzip | zstd | none

fun getCompressionExtension :: "CompressionMethod \<Rightarrow> jsstring" where
  "getCompressionExtension gzip = js ''.tar.gz''"
| "getCompressionExtension zstd = js ''.tar.zst''"
| "getCompressionExtension none = js ''.tar''"

fun getCompressionArgs :: "CompressionMethod \<Rightarrow> jsstring list" where
  "getCompressionArgs gzip = [js ''-z'']"
| "getCompressionArgs zstd = [js ''--zstd'']"
| "getCompressionArgs none = []"

definition detectCompressionMethod :: "jsstring \<Rightarrow> CompressionMethod" where
  "detectCompressionMethod archivePath =
     (if endsWith archivePath (js ''.tar.gz'') \<or> endsWith archivePath (js ''.tgz'') then gzip
      else if endsWith archivePath (js ''.tar.zst'') then zstd
      else none)"

definition getArchiveExtension :: "CompressionMethod \<Rightarrow> jsstring" where
  "getArchiveExtension method = getCompressionExtension method"


section \<open>AzureCacheProvider: blob names\<close>

definition CACHE_KEY_METADATA :: jsstring where
  "CACHE_KEY_METADATA = js ''cachekey''"

definition CREATED_AT_METADATA :: jsstring where
  "CREATED_AT_METADATA = js ''createdat''"

definition MAX_BLOB_NAME_LENGTH :: nat where
  "MAX_BLOB_NAME_LENGTH = 1024"

text \<open>The four chained \<open>replace\<close> calls of \<open>sanitizeBlobName\<close>, in the source's order.\<close>

definition replaceInvalid :: "jsstring \<Rightarrow> jsstring" where
  "replaceInvalid key =
     replaceWhitespaceRuns (replaceAll 0x23 (replaceAll 0x3F (replaceAll 0x5C key)))"

text \<open>
  \<open>sanitizeBlobName\<close>. The parameter \<open>sha256hex\<close> stands for Node's
  \<open>crypto.createHash("sha256").update(key).digest("hex")\<close>, a library function outside the
  repository; the source takes the first eight characters of its result.
\<close>

definition sanitizeBlobName :: "(jsstring \<Rightarrow> jsstring) \<Rightarrow> jsstring \<Rightarrow> jsstring" where
  "sanitizeBlobName sha256hex key =
     (let sanitized = replaceInvalid key in
      if length sanitized > MAX_BLOB_NAME_LENGTH then
        (let hash = substring0 (sha256hex key) 8;
             maxBaseLength = MAX_BLOB_NAME_LENGTH - length hash - 1
         in substring0 sanitized maxBaseLength @ js ''_'' @ hash)
      else sanitized)"



section \<open>Numbers in messages\<close>

text \<open>\<open>String(n)\<close> for an integral number: decimal digits, with a minus sign when negative.\<close>

function decimal :: "nat \<Rightarrow> jsstring" where
  "decimal n = (if n < 10 then [of_nat (48 + n)]
                else decimal (n div 10) @ [of_nat (48 + n mod 10)])"
  by pat_completeness auto
termination
  by (relation "measure id") auto

declare decimal.simps [simp del]

definition numberToString :: "int \<Rightarrow> jsstring" where
  "numberToString i = (if i < 0 then js ''-'' @ decimal (nat (- i)) else decimal (nat i))"

text \<open>
  \<open>(size / 1024 / 1024).toFixed(2)\<close> for a file size in bytes: the division by \<open>2 ^ 20\<close> is
  exact, and \<open>toFixed\<close> takes the nearest multiple of a hundredth, the larger one on a tie.
\<close>

definition toFixed2MB :: "nat \<Rightarrow> jsstring" where
  "toFixed2MB bytes =
     (let n = (200 * bytes + 1048576) div 2097152
      in decimal (n div 100) @ js ''.'' @
         [of_nat (48 + (n mod 100) div 10), of_nat (48 + n mod 10)])"

text \<open>\<open>xs.join(sep)\<close>.\<close>

fun joinWith :: "jsstring \<Rightarrow> jsstring list \<Rightarrow> jsstring" where
  "joinWith sep [] = []"
| "joinWith sep [x] = x"
| "joinWith sep (x # y # ys) = x @ sep @ joinWith sep (y # ys)"


section \<open>The world outside the program\<close>

text \<open>An exception is an \<open>Error\<close> object; the program reads only its message.\<close>

datatype error = Error jsstring

fun message :: "error \<Rightarrow> jsstring" where
  "message (Error m) = m"

text \<open>
  A blob of the container as the storage service reports it: \<open>name\<close> and
  \<open>properties.lastModified\<close> (in milliseconds since the epoch, as \<open>getTime()\<close> gives it)
  come with a listing, \<open>metadata\<close> with \<open>getProperties()\<close>. Both may be missing in the SDK's
  types. The archive bytes are not modelled.
\<close>

record BlobItem =
  name :: jsstring
  lastModified :: "int option"
  metadata :: "(jsstring \<times> jsstring) list option"

text \<open>Every call that leaves the process, with the arguments that identify it.\<close>

datatype call =
    CreateIfNotExists
  | Exists jsstring
  | ListBlobsFlat jsstring
  | GetProperties jsstring
  | Download jsstring
  | WriteStream jsstring
  | UploadStream jsstring jsstring "(jsstring \<times> jsstring) list"
  | Mkdir jsstring
  | Rm jsstring
  | Stat jsstring
  | WriteFile jsstring
  | Unlink jsstring
  | Which bool
  | Exec jsstring "jsstring list"

text \<open>What an observer sees of a run: the external calls and the log lines, in order.\<close>

datatype event = Call call | Info jsstring | Warning jsstring | Debug jsstring

text \<open>
  What the program reads but does not change. \<open>rejects\<close> says which external calls fail
  and with which error; \<open>tarExitCode\<close> is the exit status of the archiving tool for an
  argument list; \<open>tarLocation\<close> is what \<open>io.which("tar")\<close> finds, empty when there is none;
  \<open>hasStreamBody\<close> says whether a download response carries \<open>readableStreamBody\<close>, and
  \<open>readError\<close> whether that stream, once piped, emits an error while it is read;
  \<open>workspaceRoot\<close> is \<open>GITHUB_WORKSPACE || process.cwd()\<close>, \<open>tempBase\<close> is
  \<open>RUNNER_TEMP || os.tmpdir()\<close>; \<open>dateNow\<close> is \<open>Date.now()\<close>, \<open>dateISO\<close> is
  \<open>new Date().toISOString()\<close> and \<open>randomSuffix\<close> is
  \<open>Math.random().toString(36).substring(2, 8)\<close>.
\<close>

record environment =
  rejects :: "call \<Rightarrow> error option"
  tarExitCode :: "jsstring list \<Rightarrow> int"
  tarLocation :: jsstring
  hasStreamBody :: "jsstring \<Rightarrow> bool"
  readError :: "jsstring \<Rightarrow> error option"
  fileSize :: "jsstring \<Rightarrow> nat"
  platform :: jsstring
  workspaceRoot :: jsstring
  tempBase :: jsstring
  dateNow :: int
  dateISO :: jsstring
  randomSuffix :: jsstring

text \<open>
  What the program changes: the blobs of the container in the order the service lists
  them, the paths present on the local disk, and the trace of events so far.
\<close>

record world =
  env :: environment
  container :: "BlobItem list"
  disk :: "jsstring list"
  trace :: "event list"


section \<open>Asynchronous computations that may throw\<close>

text \<open>
  An awaited promise that does not resolve either rejects, which throws \<open>Thrown e\<close> at the
  \<open>await\<close>, or never settles: \<open>Unsettled e\<close> is an error emitted where nothing listens
  for it, so that no \<open>catch\<close> and no \<open>finally\<close> block of the awaiting method runs and the
  method gives nothing to its caller.
\<close>

datatype failure = Thrown error | Unsettled error

type_synonym 'a async = "world \<Rightarrow> (failure + 'a) \<times> world"

definition resolve :: "'a \<Rightarrow> 'a async" where
  "resolve v w = (Inr v, w)"

definition throw :: "error \<Rightarrow> 'a async" where
  "throw e w = (Inl (Thrown e), w)"

definition unsettled :: "error \<Rightarrow> 'a async" where
  "unsettled e w = (Inl (Unsettled e), w)"

definition await :: "'a async \<Rightarrow> ('a \<Rightarrow> 'b async) \<Rightarrow> 'b async" where
  "await m k w = (case m w of (Inl f, w') \<Rightarrow> (Inl f, w') | (Inr v, w') \<Rightarrow> k v w')"

definition tryCatch :: "'a async \<Rightarrow> (error \<Rightarrow> 'a async) \<Rightarrow> 'a async" where
  "tryCatch m handler w =
     (case m w of
        (Inl (Thrown e), w') \<Rightarrow> handler e w'
      | (Inl (Unsettled e), w') \<Rightarrow> (Inl (Unsettled e), w')
      | (Inr v, w') \<Rightarrow> (Inr v, w'))"

text \<open>\<open>try { m } finally { cleanup }\<close>: an exception of the cleanup replaces the outcome of \<open>m\<close>.\<close>

definition tryFinally :: "'a async \<Rightarrow> unit async \<Rightarrow> 'a async" where
  "tryFinally m cleanup w =
     (case m w of
        (Inl (Unsettled e), w') \<Rightarrow> (Inl (Unsettled e), w')
      | (r, w') \<Rightarrow>
          (case cleanup w' of (Inl f, w'') \<Rightarrow> (Inl f, w'') | (Inr u, w'') \<Rightarrow> (r, w'')))"

definition ask :: "(environment \<Rightarrow> 'a) \<Rightarrow> 'a async" where
  "ask f w = (Inr (f (env w)), w)"

definition emit :: "event \<Rightarrow> unit async" where
  "emit ev w = (Inr (), w\<lparr>trace := trace w @ [ev]\<rparr>)"

text \<open>An external call is recorded, then it is rejected or takes effect.\<close>

definition external :: "call \<Rightarrow> 'a async \<Rightarrow> 'a async" where
  "external c effect w =
     (let w' = w\<lparr>trace := trace w @ [Call c]\<rparr>
      in case rejects (env w) c of Some e \<Rightarrow> (Inl (Thrown e), w') | None \<Rightarrow> effect w')"


section \<open>The storage service\<close>

definition blobsWithPrefix :: "jsstring \<Rightarrow> BlobItem list \<Rightarrow> BlobItem list" where
  "blobsWithPrefix prefix bs = filter (\<lambda>b. startsWith (name b) prefix) bs"

text \<open>An upload creates the blob, or replaces the blob of the same name.\<close>

fun putBlob :: "BlobItem \<Rightarrow> BlobItem list \<Rightarrow> BlobItem list" where
  "putBlob b [] = [b]"
| "putBlob b (x # xs) = (if name x = name b then b # xs else x # putBlob b xs)"

definition createIfNotExists :: "unit async" where
  "createIfNotExists = external CreateIfNotExists (resolve ())"

definition blob_exists :: "jsstring \<Rightarrow> bool async" where
  "blob_exists n = external (Exists n) (\<lambda>w. resolve (n \<in> set (map name (container w))) w)"

definition listBlobsFlat :: "jsstring \<Rightarrow> BlobItem list async" where
  "listBlobsFlat prefix =
     external (ListBlobsFlat prefix) (\<lambda>w. resolve (blobsWithPrefix prefix (container w)) w)"

definition getProperties :: "jsstring \<Rightarrow> (jsstring \<times> jsstring) list option async" where
  "getProperties n =
     external (GetProperties n)
       (\<lambda>w. case find (\<lambda>b. name b = n) (container w) of
               None \<Rightarrow> throw (Error (js ''BlobNotFound'')) w
             | Some b \<Rightarrow> resolve (metadata b) w)"

definition download :: "jsstring \<Rightarrow> bool async" where
  "download n =
     external (Download n)
       (\<lambda>w. if n \<in> set (map name (container w)) then resolve (hasStreamBody (env w) n) w
             else throw (Error (js ''BlobNotFound'')) w)"

definition uploadStream ::
    "jsstring \<Rightarrow> jsstring \<Rightarrow> (jsstring \<times> jsstring) list \<Rightarrow> unit async" where
  "uploadStream n sourcePath md =
     external (UploadStream n sourcePath md)
       (\<lambda>w. resolve ()
          (w\<lparr>container :=
               putBlob \<lparr>name = n, lastModified = Some (dateNow (env w)), metadata = Some md\<rparr>
                 (container w)\<rparr>))"


section \<open>The local disk and the archiving tool\<close>

definition mkdir :: "jsstring \<Rightarrow> unit async" where
  "mkdir p = external (Mkdir p) (\<lambda>w. resolve () (w\<lparr>disk := List.insert p (disk w)\<rparr>))"

text \<open>\<open>fs.promises.rm(p, { recursive: true, force: true })\<close>.\<close>

definition rm :: "jsstring \<Rightarrow> unit async" where
  "rm p =
     external (Rm p)
       (\<lambda>w. resolve ()
          (w\<lparr>disk := filter (\<lambda>f. f \<noteq> p \<and> \<not> startsWith f (p @ js ''/'')) (disk w)\<rparr>))"

definition stat :: "jsstring \<Rightarrow> nat async" where
  "stat p =
     external (Stat p)
       (\<lambda>w. if p \<in> set (disk w) then resolve (fileSize (env w) p) w
             else throw (Error (js ''ENOENT'')) w)"

definition writeFile :: "jsstring \<Rightarrow> unit async" where
  "writeFile p = external (WriteFile p) (\<lambda>w. resolve () (w\<lparr>disk := List.insert p (disk w)\<rparr>))"

text \<open>
  \<open>new Promise((resolve, reject) =>
  readableStreamBody.pipe(writeStream).on("finish", resolve).on("error", reject))\<close>
  for the body of blob \<open>n\<close> and a write stream on \<open>p\<close>. \<open>pipe\<close> returns its destination, so
  both listeners are on the write stream: an error of the write stream rejects the
  promise, its end resolves it, and an error of the stream that is read reaches no
  listener and leaves the promise unsettled. The write stream has created the file by then.
\<close>

definition pipe :: "jsstring \<Rightarrow> jsstring \<Rightarrow> unit async" where
  "pipe n p =
     external (WriteStream p)
       (\<lambda>w. case readError (env w) n of
               Some e \<Rightarrow> unsettled e (w\<lparr>disk := List.insert p (disk w)\<rparr>)
             | None \<Rightarrow> resolve () (w\<lparr>disk := List.insert p (disk w)\<rparr>))"

definition unlink :: "jsstring \<Rightarrow> unit async" where
  "unlink p =
     external (Unlink p)
       (\<lambda>w. if p \<in> set (disk w) then resolve () (w\<lparr>disk := removeAll p (disk w)\<rparr>)
             else throw (Error (js ''ENOENT'')) w)"

text \<open>\<open>io.which("tar", check)\<close>: the empty string when there is no tar and \<open>check\<close> is false.\<close>

definition which :: "bool \<Rightarrow> jsstring async" where
  "which check =
     external (Which check)
       (\<lambda>w. if tarLocation (env w) = [] \<and> check
             then throw (Error (js ''Unable to locate executable file: tar'')) w
             else resolve (tarLocation (env w)) w)"

text \<open>The argument that follows the flag \<open>flag\<close>, if any.\<close>

fun argumentAfter :: "jsstring \<Rightarrow> jsstring list \<Rightarrow> jsstring option" where
  "argumentAfter flag (a # b # rest) =
     (if a = flag then Some b else argumentAfter flag (b # rest))"
| "argumentAfter flag rest = None"

text \<open>
  \<open>exec.exec(tool, args)\<close> gives the exit status, unless the call is rejected (as the
  library does on a nonzero status when run with its default options). A successful
  \<open>tar -c -f file\<close> leaves \<open>file\<close> on the disk; what an extraction writes is not tracked.
\<close>

definition exec :: "jsstring \<Rightarrow> jsstring list \<Rightarrow> int async" where
  "exec tool args =
     external (Exec tool args)
       (\<lambda>w. let exitCode = tarExitCode (env w) args
             in case argumentAfter (js ''-f'') args of
                  Some file \<Rightarrow>
                    if exitCode = 0 \<and> js ''-c'' \<in> set args
                    then resolve exitCode (w\<lparr>disk := List.insert file (disk w)\<rparr>)
                    else resolve exitCode w
                | None \<Rightarrow> resolve exitCode w)"


section \<open>ArchiveUtils\<close>

record ArchiveOptions =
  compressionMethod :: CompressionMethod

definition getTarPath :: "jsstring async" where
  "getTarPath =
     await (ask platform) (\<lambda>processPlatform.
       if processPlatform = js ''win32'' then
         await (tryCatch (await (which False) (\<lambda>p. resolve (Some p))) (\<lambda>e. resolve None))
           (\<lambda>gnuTar. case gnuTar of
                        Some p \<Rightarrow> if p \<noteq> [] then resolve p else which True
                      | None \<Rightarrow> which True)
       else which True)"

text \<open>
  \<open>createArchive\<close>. The manifest's content, the list of paths relative to the workspace
  root, is not tracked: the disk holds paths only.
\<close>

definition createArchive ::
    "jsstring \<Rightarrow> jsstring list \<Rightarrow> ArchiveOptions \<Rightarrow> jsstring async" where
  "createArchive archiveFolder cachePaths options =
     (let extension = getCompressionExtension (compressionMethod options);
          archivePath = path_join archiveFolder (js ''cache'' @ extension)
      in await getTarPath (\<lambda>tarPath.
         let compressionArgs = getCompressionArgs (compressionMethod options)
         in await (ask workspaceRoot) (\<lambda>root.
            let manifestPath = path_join archiveFolder (js ''manifest.txt'')
            in await (writeFile manifestPath) (\<lambda>u.
               let args = [js ''--posix'', js ''-c''] @ compressionArgs @
                          [js ''-f'', archivePath, js ''-P'', js ''-C'', root,
                           js ''--files-from'', manifestPath]
               in await (emit (Debug (js ''Creating archive with: '' @ tarPath @ js '' '' @
                                      joinWith (js '' '') args))) (\<lambda>u.
                  await (exec tarPath args) (\<lambda>exitCode.
                    if exitCode \<noteq> 0
                    then throw (Error (js ''Tar failed with exit code '' @
                                       numberToString exitCode))
                    else await (tryCatch (unlink manifestPath) (\<lambda>e. resolve ())) (\<lambda>u.
                         resolve archivePath)))))))"

definition extractArchive :: "jsstring \<Rightarrow> ArchiveOptions \<Rightarrow> unit async" where
  "extractArchive archivePath options =
     await getTarPath (\<lambda>tarPath.
       let compressionArgs = getCompressionArgs (compressionMethod options)
       in await (ask workspaceRoot) (\<lambda>root.
          let args = [js ''-x''] @ compressionArgs @
                     [js ''-f'', archivePath, js ''-P'', js ''-C'', root]
          in await (emit (Debug (js ''Extracting archive with: '' @ tarPath @ js '' '' @
                                 joinWith (js '' '') args))) (\<lambda>u.
             await (exec tarPath args) (\<lambda>exitCode.
               if exitCode \<noteq> 0
               then throw (Error (js ''Tar extraction failed with exit code '' @
                                  numberToString exitCode))
               else resolve ()))))"



section \<open>AzureCacheProvider\<close>

record CacheRestoreOptions =
  lookupOnly :: "bool option"

text \<open>\<open>options?.lookupOnly\<close> as a condition.\<close>

definition lookupOnlySet :: "CacheRestoreOptions option \<Rightarrow> bool" where
  "lookupOnlySet options =
     (case options of None \<Rightarrow> False | Some opts \<Rightarrow> lookupOnly opts = Some True)"

text \<open>The private field \<open>compressionMethod\<close>, never reassigned.\<close>

definition providerCompressionMethod :: CompressionMethod where
  "providerCompressionMethod = gzip"

text \<open>The value that \<open>findMatchingBlob\<close> resolves to.\<close>

record CacheMatch =
  cacheKey :: jsstring
  blobName :: jsstring

definition ensureContainerExists :: "unit async" where
  "ensureContainerExists =
     tryCatch createIfNotExists
       (\<lambda>error. emit (Debug (js ''Container check/create: '' @ message error)))"

text \<open>\<open>blobItem.properties.lastModified?.getTime() || 0\<close>.\<close>

definition timeOf :: "BlobItem \<Rightarrow> int" where
  "timeOf b = (case lastModified b of None \<Rightarrow> 0 | Some t \<Rightarrow> if t \<noteq> 0 then t else 0)"

text \<open>\<open>properties.metadata?.[CACHE_KEY_METADATA] || blob.name\<close>: the empty string is falsy.\<close>

definition originalKeyOf :: "(jsstring \<times> jsstring) list option \<Rightarrow> jsstring \<Rightarrow> jsstring" where
  "originalKeyOf properties blobname =
     (case properties of
        None \<Rightarrow> blobname
      | Some md \<Rightarrow>
          (case map_of md CACHE_KEY_METADATA of
             None \<Rightarrow> blobname
           | Some v \<Rightarrow> if v \<noteq> [] then v else blobname))"

text \<open>
  The body of the \<open>for await\<close> loop over one listing; an element of \<open>matches\<close> is the pair
  of \<open>blobItem\<close> and \<open>cacheKey\<close>.
\<close>

fun collectMatches ::
    "BlobItem list \<Rightarrow> (BlobItem \<times> jsstring) list \<Rightarrow> (BlobItem \<times> jsstring) list async" where
  "collectMatches [] matches = resolve matches"
| "collectMatches (blob # rest) matches =
     await (getProperties (name blob)) (\<lambda>properties.
       let originalKey = originalKeyOf properties (name blob)
       in collectMatches rest (matches @ [(blob, originalKey)]))"

text \<open>
  \<open>matches.sort((a, b) => timeB - timeA)\<close>: \<open>Array.prototype.sort\<close> is stable, and so is
  \<open>sort_key\<close>; the comparator orders by descending time, that is by ascending negated time.
\<close>

definition sortByLastModified :: "(BlobItem \<times> jsstring) list \<Rightarrow> (BlobItem \<times> jsstring) list" where
  "sortByLastModified matches = sort_key (\<lambda>m. - timeOf (fst m)) matches"

text \<open>The loop over \<open>restoreKeys\<close> of \<open>findMatchingBlob\<close>.\<close>

fun scanRestoreKeys :: "(jsstring \<Rightarrow> jsstring) \<Rightarrow> jsstring list \<Rightarrow> CacheMatch option async" where
  "scanRestoreKeys sha256hex [] = resolve None"
| "scanRestoreKeys sha256hex (restoreKey # rest) =
     (let prefix = sanitizeBlobName sha256hex restoreKey
      in await (listBlobsFlat prefix) (\<lambda>blobs.
         await (collectMatches blobs []) (\<lambda>matches.
           if length matches > 0 then
             (let bestMatch = hd (sortByLastModified matches)
              in resolve (Some \<lparr>cacheKey = snd bestMatch, blobName = name (fst bestMatch)\<rparr>))
           else scanRestoreKeys sha256hex rest)))"

definition findMatchingBlob ::
    "(jsstring \<Rightarrow> jsstring) \<Rightarrow> jsstring \<Rightarrow> jsstring list \<Rightarrow> CacheMatch option async" where
  "findMatchingBlob sha256hex primaryKey restoreKeys =
     (let primaryBlobName = sanitizeBlobName sha256hex primaryKey
      in await (blob_exists primaryBlobName) (\<lambda>primaryExists.
           if primaryExists
           then resolve (Some \<lparr>cacheKey = primaryKey, blobName = primaryBlobName\<rparr>)
           else scanRestoreKeys sha256hex restoreKeys))"

definition downloadBlob :: "jsstring \<Rightarrow> jsstring \<Rightarrow> unit async" where
  "downloadBlob blob destinationPath =
     await (emit (Info (js ''Downloading cache from Azure Storage...''))) (\<lambda>u.
       await (download blob) (\<lambda>readableStreamBody.
         if \<not> readableStreamBody then throw (Error (js ''Failed to get download stream''))
         else await (pipe blob destinationPath) (\<lambda>u.
                emit (Info (js ''Download complete'')))))"

definition uploadBlob :: "jsstring \<Rightarrow> jsstring \<Rightarrow> jsstring \<Rightarrow> unit async" where
  "uploadBlob blob sourcePath key =
     await (emit (Info (js ''Uploading cache to Azure Storage...''))) (\<lambda>u.
       await (stat sourcePath) (\<lambda>size.
         await (ask dateISO) (\<lambda>iso.
           await (uploadStream blob sourcePath
                    [(CACHE_KEY_METADATA, key), (CREATED_AT_METADATA, iso)]) (\<lambda>u.
             emit (Info (js ''Upload complete''))))))"

definition createTempDirectory :: "jsstring async" where
  "createTempDirectory =
     await (ask tempBase) (\<lambda>base.
       await (ask dateNow) (\<lambda>now.
         await (ask randomSuffix) (\<lambda>suffix.
           let tempDir = path_join base
                 (js ''azure-cache-'' @ numberToString now @ js ''-'' @ suffix)
           in await (mkdir tempDir) (\<lambda>u. resolve tempDir))))"

definition cleanupTempDirectory :: "jsstring \<Rightarrow> unit async" where
  "cleanupTempDirectory tempDir =
     tryCatch (rm tempDir)
       (\<lambda>error. emit (Debug (js ''Failed to cleanup temp directory: '' @ message error)))"

text \<open>\<open>restoreCache\<close> from the creation of the temporary directory to the \<open>finally\<close> block.\<close>

definition downloadAndExtract :: "CacheMatch \<Rightarrow> jsstring option async" where
  "downloadAndExtract found =
     await createTempDirectory (\<lambda>tempDir.
       let archiveExtension = getArchiveExtension providerCompressionMethod;
           archivePath = path_join tempDir (js ''cache'' @ archiveExtension)
       in tryFinally
            (await (downloadBlob (blobName found) archivePath) (\<lambda>u.
               await (extractArchive archivePath
                        \<lparr>compressionMethod = providerCompressionMethod\<rparr>) (\<lambda>u.
                 await (emit (Info (js ''Cache restored from key: '' @ cacheKey found))) (\<lambda>u.
                   resolve (Some (cacheKey found))))))
            (cleanupTempDirectory tempDir))"

text \<open>
  The \<open>try\<close> block of \<open>restoreCache\<close>. The method does not read \<open>cachePaths\<close> nor its
  last parameter \<open>_enableCrossOsArchive\<close>, which is left out.
\<close>

definition restoreCache_try ::
    "(jsstring \<Rightarrow> jsstring) \<Rightarrow> jsstring list \<Rightarrow> jsstring \<Rightarrow> jsstring list \<Rightarrow>
     CacheRestoreOptions option \<Rightarrow> jsstring option async" where
  "restoreCache_try sha256hex cachePaths primaryKey restoreKeys options =
     await ensureContainerExists (\<lambda>u.
       await (findMatchingBlob sha256hex primaryKey restoreKeys) (\<lambda>matching.
         case matching of
           None \<Rightarrow>
             await (emit (Info (js ''No cache found matching the provided keys''))) (\<lambda>u.
               resolve None)
         | Some found \<Rightarrow>
             await (emit (Info (js ''Cache found for key: '' @ cacheKey found))) (\<lambda>u.
               if lookupOnlySet options then
                 await (emit (Info (js ''Lookup only mode - skipping download''))) (\<lambda>u.
                   resolve (Some (cacheKey found)))
               else downloadAndExtract found)))"

definition restoreCache ::
    "(jsstring \<Rightarrow> jsstring) \<Rightarrow> jsstring list \<Rightarrow> jsstring \<Rightarrow> jsstring list \<Rightarrow>
     CacheRestoreOptions option \<Rightarrow> jsstring option async" where
  "restoreCache sha256hex cachePaths primaryKey restoreKeys options =
     tryCatch (restoreCache_try sha256hex cachePaths primaryKey restoreKeys options)
       (\<lambda>error.
          await (emit (Warning (js ''Failed to restore cache: '' @ message error))) (\<lambda>u.
            resolve None))"

text \<open>\<open>saveCache\<close> from the creation of the temporary directory to the \<open>finally\<close> block.\<close>

definition archiveAndUpload :: "jsstring list \<Rightarrow> jsstring \<Rightarrow> jsstring \<Rightarrow> int async" where
  "archiveAndUpload cachePaths primaryKey blob =
     await createTempDirectory (\<lambda>tempDir.
       tryFinally
         (await (createArchive tempDir cachePaths
                   \<lparr>compressionMethod = providerCompressionMethod\<rparr>) (\<lambda>archivePath.
            await (stat archivePath) (\<lambda>size.
              await (emit (Info (js ''Archive created: '' @ toFixed2MB size @ js '' MB''))) (\<lambda>u.
                await (uploadBlob blob archivePath primaryKey) (\<lambda>u.
                  await (emit (Info (js ''Cache saved with key: '' @ primaryKey))) (\<lambda>u.
                    ask dateNow))))))
         (cleanupTempDirectory tempDir))"

text \<open>
  The \<open>try\<close> block of \<open>saveCache\<close>. The parameters \<open>_options\<close> and
  \<open>_enableCrossOsArchive\<close>, which the method does not read, are left out.
\<close>

definition saveCache_try ::
    "(jsstring \<Rightarrow> jsstring) \<Rightarrow> jsstring list \<Rightarrow> jsstring \<Rightarrow> int async" where
  "saveCache_try sha256hex cachePaths primaryKey =
     await ensureContainerExists (\<lambda>u.
       let blob = sanitizeBlobName sha256hex primaryKey
       in await (blob_exists blob) (\<lambda>alreadyExists.
            if alreadyExists then
              await (emit (Info (js ''Cache already exists for key: '' @ primaryKey @
                                 js '', skipping save''))) (\<lambda>u.
                resolve (- 1))
            else archiveAndUpload cachePaths primaryKey blob))"

definition saveCache ::
    "(jsstring \<Rightarrow> jsstring) \<Rightarrow> jsstring list \<Rightarrow> jsstring \<Rightarrow> int async" where
  "saveCache sha256hex cachePaths primaryKey =
     tryCatch (saveCache_try sha256hex cachePaths primaryKey)
       (\<lambda>error.
          await (emit (Warning (js ''Failed to save cache: '' @ message error))) (\<lambda>u.
            resolve (- 1)))"


section \<open>Observations of a run\<close>

text \<open>A computation preserves an observation of the world when no run of it changes it.\<close>

definition preserves :: "(world \<Rightarrow> 'x) \<Rightarrow> 'a async \<Rightarrow> bool" where
  "preserves obs m \<longleftrightarrow> (\<forall>w. obs (snd (m w)) = obs w)"

text \<open>An observation that does not see the events for which \<open>Q\<close> holds.\<close>

definition blind :: "(world \<Rightarrow> 'x) \<Rightarrow> (event \<Rightarrow> bool) \<Rightarrow> bool" where
  "blind obs Q \<longleftrightarrow> (\<forall>w ev. Q ev \<longrightarrow> obs (w\<lparr>trace := trace w @ [ev]\<rparr>) = obs w)"

text \<open>
  Events that only ask the storage service or write a log line, as opposed to the calls
  that move data or touch the disk.
\<close>

fun isQuery :: "event \<Rightarrow> bool" where
  "isQuery (Call CreateIfNotExists) = True"
| "isQuery (Call (Exists n)) = True"
| "isQuery (Call (ListBlobsFlat p)) = True"
| "isQuery (Call (GetProperties n)) = True"
| "isQuery (Call c) = False"
| "isQuery ev = True"

text \<open>The warnings among the log lines.\<close>

fun isWarning :: "event \<Rightarrow> bool" where
  "isWarning (Warning m) = True"
| "isWarning ev = False"

text \<open>The listing calls.\<close>

fun isListing :: "event \<Rightarrow> bool" where
  "isListing (Call (ListBlobsFlat p)) = True"
| "isListing ev = False"

text \<open>A restore key whose sanitized prefix matches no blob of the container.\<close>

definition unmatched :: "(jsstring \<Rightarrow> jsstring) \<Rightarrow> world \<Rightarrow> jsstring \<Rightarrow> bool" where
  "unmatched sha256hex w restoreKey \<longleftrightarrow>
     blobsWithPrefix (sanitizeBlobName sha256hex restoreKey) (container w) = []"

text \<open>A computation settles when no run of it ends in a promise that never settles.\<close>

definition settles :: "'a async \<Rightarrow> bool" where
  "settles m \<longleftrightarrow> (\<forall>w e. fst (m w) \<noteq> Inl (Unsettled e))"

text \<open>An observation that sees neither the trace nor the disk.\<close>

definition offDisk :: "(world \<Rightarrow> 'x) \<Rightarrow> bool" where
  "offDisk obs \<longleftrightarrow>
     (\<forall>w t. obs (w\<lparr>trace := t\<rparr>) = obs w) \<and> (\<forall>w d. obs (w\<lparr>disk := d\<rparr>) = obs w)"

named_theorems preserves_intros

named_theorems settles_intros


section \<open>Example worlds\<close>

text \<open>
  An environment in which no call is rejected and the archiving tool succeeds, and a
  stand-in for the digest function, which the short keys of the examples never reach.
\<close>

definition quietEnvironment :: environment where
  "quietEnvironment =
     \<lparr>rejects = (\<lambda>c. None), tarExitCode = (\<lambda>args. 0), tarLocation = js ''/usr/bin/tar'',
      hasStreamBody = (\<lambda>n. True), readError = (\<lambda>n. None), fileSize = (\<lambda>p. 2048),
      platform = js ''linux'',
      workspaceRoot = js ''/work'', tempBase = js ''/tmp'', dateNow = 1700000000000,
      dateISO = js ''2023-11-14T22:13:20.000Z'', randomSuffix = js ''abc123''\<rparr>"

definition constantDigest :: "jsstring \<Rightarrow> jsstring" where
  "constantDigest key = replicate 64 0x30"

definition blobV1 :: BlobItem where
  "blobV1 = \<lparr>name = js ''linux-v1'', lastModified = Some 1000,
             metadata = Some [(CACHE_KEY_METADATA, js ''linux-v1'')]\<rparr>"

definition worldWithV1 :: world where
  "worldWithV1 = \<lparr>env = quietEnvironment, container = [blobV1], disk = [], trace = []\<rparr>"

definition blobV2 :: BlobItem where
  "blobV2 = \<lparr>name = js ''linux-v2'', lastModified = Some 2000,
             metadata = Some [(CACHE_KEY_METADATA, js ''linux-v2'')]\<rparr>"

definition worldWithV1V2 :: world where
  "worldWithV1V2 =
     \<lparr>env = quietEnvironment, container = [blobV1, blobV2], disk = [], trace = []\<rparr>"

definition blobA :: BlobItem where
  "blobA = \<lparr>name = js ''linux-a'', lastModified = Some 1000, metadata = None\<rparr>"

definition blobB :: BlobItem where
  "blobB = \<lparr>name = js ''linux-b'', lastModified = Some 1000, metadata = None\<rparr>"

definition worldListingAB :: world where
  "worldListingAB =
     \<lparr>env = quietEnvironment, container = [blobA, blobB], disk = [], trace = []\<rparr>"

definition worldListingBA :: world where
  "worldListingBA =
     \<lparr>env = quietEnvironment, container = [blobB, blobA], disk = [], trace = []\<rparr>"

text \<open>Worlds in which the archiving tool fails, every call is rejected, or downloads fail.\<close>

definition worldTarFails :: world where
  "worldTarFails =
     \<lparr>env = quietEnvironment\<lparr>tarExitCode := (\<lambda>args. 2)\<rparr>, container = [], disk = [],
      trace = []\<rparr>"

definition worldOffline :: world where
  "worldOffline =
     \<lparr>env = quietEnvironment\<lparr>rejects := (\<lambda>c. Some (Error (js ''network unreachable'')))\<rparr>,
      container = [], disk = [], trace = []\<rparr>"


text \<open>A world in which the body of every download fails while it is read.\<close>

definition worldStreamFails :: world where
  "worldStreamFails =
     \<lparr>env = quietEnvironment\<lparr>readError := (\<lambda>n. Some (Error (js ''aborted'')))\<rparr>,
      container = [blobV1], disk = [], trace = []\<rparr>"

text \<open>An empty container, and a blob whose \<open>cachekey\<close> metadata is the empty string.\<close>

definition worldEmpty :: world where
  "worldEmpty = \<lparr>env = quietEnvironment, container = [], disk = [], trace = []\<rparr>"

definition blobBlank :: BlobItem where
  "blobBlank = \<lparr>name = js ''linux-v0'', lastModified = Some 500,
                metadata = Some [(CACHE_KEY_METADATA, [])]\<rparr>"

definition worldBlankKey :: world where
  "worldBlankKey = \<lparr>env = quietEnvironment, container = [blobBlank], disk = [], trace = []\<rparr>"


section \<open>Properties of blob names\<close>

lemma length_js: "length (js s) = length s"
  by (simp add: js_def)

lemma replaceWhitespaceRuns_clean:
  "\<forall>c \<in> set s. \<not> isWhiteSpace c \<Longrightarrow> replaceWhitespaceRuns s = s"
  by (induction s) auto

lemma replaceInvalid_letters: "replaceInvalid (replicate n 0x61) = replicate n 0x61"
proof -
  have "replaceAll c (replicate n 0x61) = replicate n 0x61" if "c \<noteq> 0x61" for c
    using that by (simp add: replaceAll_def map_replicate)
  then have "replaceInvalid (replicate n 0x61) = replaceWhitespaceRuns (replicate n 0x61)"
    by (simp add: replaceInvalid_def)
  also have "\<dots> = replicate n 0x61"
    by (rule replaceWhitespaceRuns_clean) (simp add: isWhiteSpace_def)
  finally show ?thesis .
qed

text \<open>
  Claim C5. When the key, after the four replacements, is longer than the maximum blob-name
  length of 1024, \<open>sanitizeBlobName\<close> returns the first 1015 code units of the replaced key,
  an underscore, and the first eight characters of the SHA-256 hex digest of the original
  key (not of the replaced or truncated one); these eight characters are hexadecimal
  digits, and the result has length 1024, so it never exceeds the maximum. The digest is
  taken as Node computes it: 64 lower-case hexadecimal digits.
\<close>

theorem sanitizeBlobName_long_key:
  assumes "MAX_BLOB_NAME_LENGTH < length (replaceInvalid key)"
      and "isHexDigest (sha256hex key)"
  shows "sanitizeBlobName sha256hex key =
           take 1015 (replaceInvalid key) @ js ''_'' @ take 8 (sha256hex key)
         \<and> length (take 8 (sha256hex key)) = 8
         \<and> list_all isHexDigit (take 8 (sha256hex key))
         \<and> length (sanitizeBlobName sha256hex key) = 1024
         \<and> length (sanitizeBlobName sha256hex key) \<le> MAX_BLOB_NAME_LENGTH"
proof -
  from assms(2) have len: "length (sha256hex key) = 64"
    and hex: "list_all isHexDigit (sha256hex key)"
    by (simp_all add: isHexDigest_def)
  have eq: "sanitizeBlobName sha256hex key =
              take 1015 (replaceInvalid key) @ js ''_'' @ take 8 (sha256hex key)"
    using assms(1) len
    by (simp add: sanitizeBlobName_def substring0_def Let_def MAX_BLOB_NAME_LENGTH_def)
  have h8: "length (take 8 (sha256hex key)) = 8"
    using len by simp
  have hx: "list_all isHexDigit (take 8 (sha256hex key))"
    using hex by (auto simp: list_all_iff dest: in_set_takeD)
  have l: "length (sanitizeBlobName sha256hex key) = 1024"
    using assms(1) len unfolding eq
    by (simp add: length_js MAX_BLOB_NAME_LENGTH_def)
  show ?thesis
    using eq h8 hx l by (simp add: MAX_BLOB_NAME_LENGTH_def)
qed

theorem sanitizeBlobName_long_key_witness:
  "MAX_BLOB_NAME_LENGTH < length (replaceInvalid (replicate 2000 0x61))
   \<and> isHexDigest (replicate 64 0x30)
   \<and> sanitizeBlobName (\<lambda>k. replicate 64 0x30) (replicate 2000 0x61) =
       take 1015 (replaceInvalid (replicate 2000 0x61)) @ js ''_'' @ take 8 (replicate 64 0x30)
   \<and> length (sanitizeBlobName (\<lambda>k. replicate 64 0x30) (replicate 2000 0x61)) = 1024"
proof -
  have a: "MAX_BLOB_NAME_LENGTH < length (replaceInvalid (replicate 2000 0x61))"
    by (simp add: replaceInvalid_letters MAX_BLOB_NAME_LENGTH_def)
  have b: "isHexDigest ((\<lambda>k. replicate 64 0x30) (replicate 2000 (0x61 :: 16 word)))"
    by (simp add: isHexDigest_def isHexDigit_def list_all_iff)
  from sanitizeBlobName_long_key [OF a b] a b show ?thesis
    by (simp add: length_js)
qed


section \<open>Properties of compression methods\<close>

lemma endsWith_append: "endsWith (p @ s) s"
  by (simp add: endsWith_def)

lemma endsWith_last: "endsWith s p \<Longrightarrow> p \<noteq> [] \<Longrightarrow> s \<noteq> [] \<and> last s = last p"
  unfolding endsWith_def
  by (metis append_take_drop_id last_appendR length_0_conv le_zero_eq)

lemma detect_tar: "detectCompressionMethod (p @ js ''.tar'') = none"
proof -
  have "\<not> endsWith (p @ js ''.tar'') s"
    if "s \<noteq> []" "last s \<noteq> (0x72 :: 16 word)" for s
    using endsWith_last [of "p @ js ''.tar''" s] that by (auto simp: js_def)
  then show ?thesis
    by (simp add: detectCompressionMethod_def js_def)
qed

lemma detect_tar_gz: "detectCompressionMethod (p @ js ''.tar.gz'') = gzip"
  by (simp add: detectCompressionMethod_def endsWith_append)

lemma detect_tar_zst: "detectCompressionMethod (p @ js ''.tar.zst'') = zstd"
proof -
  have "\<not> endsWith (p @ js ''.tar.zst'') s"
    if "s \<noteq> []" "last s \<noteq> (0x74 :: 16 word)" for s
    using endsWith_last [of "p @ js ''.tar.zst''" s] that by (auto simp: js_def)
  then have "\<not> endsWith (p @ js ''.tar.zst'') (js ''.tar.gz'')"
    and "\<not> endsWith (p @ js ''.tar.zst'') (js ''.tgz'')"
    by (simp_all add: js_def)
  then show ?thesis
    by (simp add: detectCompressionMethod_def endsWith_append)
qed

lemma detect_extension: "detectCompressionMethod (p @ getCompressionExtension m) = m"
  by (cases m) (simp_all add: detect_tar detect_tar_gz detect_tar_zst)

text \<open>
  Claim C10. Detection inverts extension assignment: for each of the three compression
  methods, \<open>detectCompressionMethod\<close> returns the method on every path that ends with the
  extension \<open>getArchiveExtension\<close> gives it, and so on the archive path that
  \<open>createArchive\<close> builds, \<open>path.join(archiveFolder, "cache" + extension)\<close>.
\<close>

theorem detectCompressionMethod_inverts_extension:
  "detectCompressionMethod (p @ getArchiveExtension m) = m
   \<and> detectCompressionMethod
       (path_join archiveFolder (js ''cache'' @ getCompressionExtension m)) = m"
proof -
  have "path_join archiveFolder (js ''cache'' @ getCompressionExtension m) =
          (archiveFolder @ js ''/'' @ js ''cache'') @ getCompressionExtension m"
    by (simp add: path_join_def)
  then show ?thesis
    by (simp only: getArchiveExtension_def detect_extension)
qed


section \<open>Reasoning about computations\<close>

text \<open>The definitions that a run unfolds.\<close>

lemmas run_defs =
  resolve_def throw_def unsettled_def await_def tryCatch_def tryFinally_def ask_def emit_def
  external_def Let_def

lemmas storage_defs =
  createIfNotExists_def blob_exists_def listBlobsFlat_def getProperties_def download_def
  uploadStream_def blobsWithPrefix_def startsWith_def

lemmas disk_defs =
  mkdir_def rm_def stat_def writeFile_def pipe_def unlink_def which_def exec_def

lemmas string_defs =
  js_def sanitizeBlobName_def replaceInvalid_def replaceAll_def isWhiteSpace_def
  MAX_BLOB_NAME_LENGTH_def underscore_def

lemma preservesD: "preserves obs m \<Longrightarrow> obs (snd (m w)) = obs w"
  by (simp add: preserves_def)

lemma preserves_resolve [preserves_intros]: "preserves obs (resolve v)"
  by (simp add: preserves_def resolve_def)

lemma preserves_throw [preserves_intros]: "preserves obs (throw e)"
  by (simp add: preserves_def throw_def)

lemma preserves_ask [preserves_intros]: "preserves obs (ask f)"
  by (simp add: preserves_def ask_def)

lemma preserves_await [preserves_intros]:
  "preserves obs m \<Longrightarrow> (\<And>v. preserves obs (k v)) \<Longrightarrow> preserves obs (await m k)"
  unfolding preserves_def await_def
  by (auto split: prod.splits sum.splits failure.splits) (metis snd_conv)+

lemma preserves_tryCatch [preserves_intros]:
  "preserves obs m \<Longrightarrow> (\<And>e. preserves obs (h e)) \<Longrightarrow> preserves obs (tryCatch m h)"
  unfolding preserves_def tryCatch_def
  by (auto split: prod.splits sum.splits failure.splits) (metis snd_conv)+

lemma preserves_tryFinally [preserves_intros]:
  "preserves obs m \<Longrightarrow> preserves obs c \<Longrightarrow> preserves obs (tryFinally m c)"
  unfolding preserves_def tryFinally_def
  by (auto split: prod.splits sum.splits failure.splits) (metis snd_conv)+

lemma preserves_if [preserves_intros]:
  "(b \<Longrightarrow> preserves obs m) \<Longrightarrow> (\<not> b \<Longrightarrow> preserves obs n) \<Longrightarrow> preserves obs (if b then m else n)"
  by simp

lemma preserves_case_option [preserves_intros]:
  "preserves obs m \<Longrightarrow> (\<And>x. preserves obs (n x)) \<Longrightarrow>
   preserves obs (case x of None \<Rightarrow> m | Some y \<Rightarrow> n y)"
  by (cases x) simp_all

lemma preserves_Let [preserves_intros]:
  "(\<And>x. preserves obs (f x)) \<Longrightarrow> preserves obs (let x = v in f x)"
  by simp

lemma preserves_emit: "blind obs Q \<Longrightarrow> Q ev \<Longrightarrow> preserves obs (emit ev)"
  by (simp add: preserves_def emit_def blind_def)

lemma preserves_external:
  "blind obs Q \<Longrightarrow> Q (Call c) \<Longrightarrow> preserves obs effect \<Longrightarrow> preserves obs (external c effect)"
  unfolding preserves_def external_def blind_def
  by (auto simp: Let_def split: option.splits)

lemma blind_env: "blind env Q"
  by (simp add: blind_def)

lemma blind_container: "blind container Q"
  by (simp add: blind_def)

lemma blind_disk: "blind disk Q"
  by (simp add: blind_def)

lemma blind_filter: "blind (\<lambda>w. filter P (trace w)) (\<lambda>ev. \<not> P ev)"
  by (simp add: blind_def)

lemma ensureContainerExists_preserves:
  assumes "blind obs Q" "Q (Call CreateIfNotExists)" "\<And>m. Q (Debug m)"
  shows "preserves obs ensureContainerExists"
  unfolding ensureContainerExists_def createIfNotExists_def
  by (intro preserves_intros preserves_emit [OF assms(1)] preserves_external [OF assms(1)] assms)

lemma getProperties_preserves:
  assumes "blind obs Q" "Q (Call (GetProperties n))"
  shows "preserves obs (getProperties n)"
  unfolding getProperties_def
  by (rule preserves_external [OF assms])
     (simp add: preserves_def resolve_def throw_def split: option.splits)

lemma collectMatches_preserves:
  assumes "blind obs Q" "\<And>n. Q (Call (GetProperties n))"
  shows "preserves obs (collectMatches bs acc)"
  by (induction bs arbitrary: acc)
     (auto intro!: preserves_intros getProperties_preserves [OF assms(1)] assms(2))






lemma blind_isQuery: "blind (\<lambda>w. filter (\<lambda>ev. \<not> isQuery ev) (trace w)) isQuery"
  by (simp add: blind_def)

lemma hd_insort_key:
  "hd (insort_key f x ys) = (if ys = [] \<or> f x \<le> f (hd ys) then x else hd ys)"
  by (cases ys) auto

lemma sort_key_Nil_iff: "sort_key f xs = [] \<longleftrightarrow> xs = []"
  by (metis length_sort list.size(3) length_0_conv)

lemma hd_sort_key_first_minimum:
  fixes f :: "'a \<Rightarrow> int"
  assumes "xs \<noteq> []"
  shows "\<exists>pre post. xs = pre @ hd (sort_key f xs) # post
           \<and> (\<forall>x \<in> set pre. f (hd (sort_key f xs)) < f x)
           \<and> (\<forall>x \<in> set post. f (hd (sort_key f xs)) \<le> f x)"
  using assms
proof (induction xs)
  case Nil
  then show ?case by simp
next
  case (Cons x xs)
  show ?case
  proof (cases "xs = []")
    case True
    then show ?thesis by (intro exI [of _ "[]"]) simp
  next
    case False
    from Cons.IH [OF False] obtain pre post where
      split: "xs = pre @ hd (sort_key f xs) # post"
      and pre: "\<forall>y \<in> set pre. f (hd (sort_key f xs)) < f y"
      and post: "\<forall>y \<in> set post. f (hd (sort_key f xs)) \<le> f y"
      by blast
    let ?m = "hd (sort_key f xs)"
    have nonempty: "sort_key f xs \<noteq> []"
      using False by (simp add: sort_key_Nil_iff)
    show ?thesis
    proof (cases "f x \<le> f ?m")
      case True
      then have hd: "hd (sort_key f (x # xs)) = x"
        by (simp add: hd_insort_key)
      have "\<forall>y \<in> set xs. f x \<le> f y"
      proof
        fix y assume "y \<in> set xs"
        then have "y \<in> set pre \<or> y = ?m \<or> y \<in> set post"
          using split by (metis Un_iff set_ConsD set_append)
        then show "f x \<le> f y"
          using True pre post by auto
      qed
      then show ?thesis
        unfolding hd by (intro exI [of _ "[]"] exI [of _ xs]) simp
    next
      case False
      then have hd: "hd (sort_key f (x # xs)) = ?m"
        using nonempty by (simp add: hd_insort_key)
      have "x # xs = (x # pre) @ ?m # post"
        using split by simp
      moreover have "\<forall>y \<in> set (x # pre). f ?m < f y"
        using False pre by auto
      ultimately show ?thesis
        unfolding hd using post by blast
    qed
  qed
qed

lemma external_accepted:
  "rejects (env w) c = None \<Longrightarrow> external c effect w = effect (w\<lparr>trace := trace w @ [Call c]\<rparr>)"
  by (simp add: external_def Let_def)

lemma external_rejected:
  "rejects (env w) c = Some e \<Longrightarrow>
   external c effect w = (Inl (Thrown e), w\<lparr>trace := trace w @ [Call c]\<rparr>)"
  by (simp add: external_def Let_def)

lemma awaitE:
  assumes "await m k w = (Inr v, w')"
  obtains x w1 where "m w = (Inr x, w1)" and "k x w1 = (Inr v, w')"
  using assms unfolding await_def by (auto split: prod.splits sum.splits)

lemma external_InrE:
  assumes "external c effect w = (Inr v, w')"
  obtains "rejects (env w) c = None" and "effect (w\<lparr>trace := trace w @ [Call c]\<rparr>) = (Inr v, w')"
  using assms unfolding external_def by (auto simp: Let_def split: option.splits)

lemma getProperties_result:
  assumes "getProperties n w = (Inr md, w')"
  shows "\<exists>b'. find (\<lambda>x. name x = n) (container w) = Some b' \<and> md = metadata b'"
    and "container w' = container w"
  using assms unfolding getProperties_def
  by (auto elim!: external_InrE simp: resolve_def throw_def split: option.splits)

lemma collectMatches_result:
  assumes "collectMatches bs acc w = (Inr ms, w')"
  shows "\<exists>found. ms = acc @ found \<and> map fst found = bs \<and>
           (\<forall>(b, key) \<in> set found. \<exists>b'. find (\<lambda>x. name x = name b) (container w) = Some b'
              \<and> key = originalKeyOf (metadata b') (name b))"
  using assms
proof (induction bs arbitrary: acc w)
  case Nil
  then show ?case by (simp add: resolve_def)
next
  case (Cons b bs)
  from Cons.prems obtain md w1 where
    props: "getProperties (name b) w = (Inr md, w1)"
    and rest: "collectMatches bs (acc @ [(b, originalKeyOf md (name b))]) w1 = (Inr ms, w')"
    by (auto elim!: awaitE simp: Let_def)
  from getProperties_result [OF props] obtain b' where
    b': "find (\<lambda>x. name x = name b) (container w) = Some b'" "md = metadata b'"
    and same: "container w1 = container w"
    by blast
  from Cons.IH [OF rest] obtain found where
    found: "ms = (acc @ [(b, originalKeyOf md (name b))]) @ found" "map fst found = bs"
      "\<forall>(b, key) \<in> set found. \<exists>b'. find (\<lambda>x. name x = name b) (container w) = Some b'
          \<and> key = originalKeyOf (metadata b') (name b)"
    unfolding same by blast
  show ?case
    using found b' by (intro exI [of _ "(b, originalKeyOf md (name b)) # found"]) auto
qed

lemma listBlobsFlat_result:
  assumes "listBlobsFlat p w = (Inr bs, w')"
  shows "bs = blobsWithPrefix p (container w)" and "container w' = container w"
    and "trace w' = trace w @ [Call (ListBlobsFlat p)]"
  using assms unfolding listBlobsFlat_def
  by (auto elim!: external_InrE simp: resolve_def)

lemma scanRestoreKeys_result:
  assumes "scanRestoreKeys h rks w = (Inr r, w')"
  shows "case dropWhile (\<lambda>k. blobsWithPrefix (sanitizeBlobName h k) (container w) = []) rks of
           [] \<Rightarrow> r = None
         | k # later \<Rightarrow>
             \<exists>found. map fst found = blobsWithPrefix (sanitizeBlobName h k) (container w) \<and>
               (\<forall>(b, key) \<in> set found.
                   \<exists>b'. find (\<lambda>x. name x = name b) (container w) = Some b'
                     \<and> key = originalKeyOf (metadata b') (name b)) \<and>
               r = Some \<lparr>cacheKey = snd (hd (sortByLastModified found)),
                         blobName = name (fst (hd (sortByLastModified found)))\<rparr>"
  using assms
proof (induction rks arbitrary: w)
  case Nil
  then show ?case by (simp add: resolve_def)
next
  case (Cons k rks)
  let ?p = "sanitizeBlobName h k"
  from Cons.prems obtain bs w1 ms w2 where
    list: "listBlobsFlat ?p w = (Inr bs, w1)"
    and coll: "collectMatches bs [] w1 = (Inr ms, w2)"
    and rest: "(if length ms > 0
        then let bestMatch = hd (sortByLastModified ms)
             in resolve (Some \<lparr>cacheKey = snd bestMatch, blobName = name (fst bestMatch)\<rparr>)
        else scanRestoreKeys h rks) w2 = (Inr r, w')"
    by (auto elim!: awaitE simp: Let_def)
  from listBlobsFlat_result [OF list] have
    bs: "bs = blobsWithPrefix ?p (container w)" and c1: "container w1 = container w"
    by simp_all
  from collectMatches_result [OF coll] have
    ms: "map fst ms = bs"
      "\<forall>(b, key) \<in> set ms. \<exists>b'. find (\<lambda>x. name x = name b) (container w) = Some b'
          \<and> key = originalKeyOf (metadata b') (name b)"
    unfolding c1 by auto
  have c2: "container w2 = container w"
    using preservesD [OF collectMatches_preserves [OF blind_container [of "\<lambda>ev. True"]], of bs "[]" w1]
      coll c1 by simp
  show ?case
  proof (cases "ms = []")
    case True
    then have "bs = []" using ms(1) by simp
    moreover from True rest have "scanRestoreKeys h rks w2 = (Inr r, w')" by simp
    ultimately show ?thesis
      using Cons.IH [of w2, unfolded c2] bs by simp
  next
    case False
    then have "bs \<noteq> []" using ms(1) by auto
    moreover from False rest have
      "r = Some \<lparr>cacheKey = snd (hd (sortByLastModified ms)),
                 blobName = name (fst (hd (sortByLastModified ms)))\<rparr>"
      by (simp add: resolve_def Let_def)
    ultimately show ?thesis
      using bs ms by (simp del: split_paired_All) blast
  qed
qed

lemma dropWhile_Cons_not: "dropWhile P xs = y # ys \<Longrightarrow> \<not> P y"
  by (metis hd_dropWhile list.sel(1) list.distinct(1))

lemma scanRestoreKeys_selects:
  assumes "scanRestoreKeys h rks w = (Inr r, w')"
  shows "case dropWhile (\<lambda>k. blobsWithPrefix (sanitizeBlobName h k) (container w) = []) rks of
           [] \<Rightarrow> r = None
         | k # later \<Rightarrow>
             \<exists>pre b post b'.
               blobsWithPrefix (sanitizeBlobName h k) (container w) = pre @ b # post \<and>
               (\<forall>x \<in> set pre. timeOf x < timeOf b) \<and>
               (\<forall>x \<in> set post. timeOf x \<le> timeOf b) \<and>
               find (\<lambda>x. name x = name b) (container w) = Some b' \<and>
               r = Some \<lparr>cacheKey = originalKeyOf (metadata b') (name b), blobName = name b\<rparr>"
proof (cases "dropWhile (\<lambda>k. blobsWithPrefix (sanitizeBlobName h k) (container w) = []) rks")
  case Nil
  show ?thesis
    using scanRestoreKeys_result [OF assms] unfolding Nil by simp
next
  case (Cons k later)
  let ?bs = "blobsWithPrefix (sanitizeBlobName h k) (container w)"
  let ?f = "\<lambda>m :: BlobItem \<times> jsstring. - timeOf (fst m)"
  from dropWhile_Cons_not [OF Cons] have nonempty: "?bs \<noteq> []" .
  from scanRestoreKeys_result [OF assms, unfolded Cons] obtain found where
    fst: "map fst found = ?bs"
    and keys: "\<forall>(b, key) \<in> set found.
        \<exists>b'. find (\<lambda>x. name x = name b) (container w) = Some b'
          \<and> key = originalKeyOf (metadata b') (name b)"
    and r: "r = Some \<lparr>cacheKey = snd (hd (sortByLastModified found)),
                      blobName = name (fst (hd (sortByLastModified found)))\<rparr>"
    by auto
  from fst nonempty have "found \<noteq> []" by auto
  from hd_sort_key_first_minimum [OF this, of ?f] obtain pre post where
    split: "found = pre @ hd (sort_key ?f found) # post"
    and pre: "\<forall>x \<in> set pre. ?f (hd (sort_key ?f found)) < ?f x"
    and post: "\<forall>x \<in> set post. ?f (hd (sort_key ?f found)) \<le> ?f x"
    by blast
  obtain b key where best: "hd (sort_key ?f found) = (b, key)"
    by (cases "hd (sort_key ?f found)")
  have "(b, key) \<in> set found"
    using split best by (metis in_set_conv_decomp)
  with keys obtain b' where
    b': "find (\<lambda>x. name x = name b) (container w) = Some b'"
      "key = originalKeyOf (metadata b') (name b)"
    by auto
  have "?bs = map fst pre @ b # map fst post"
    using split best fst by (metis fst_conv list.simps(9) map_append)
  moreover have "\<forall>x \<in> set (map fst pre). timeOf x < timeOf b"
    using pre best by auto
  moreover have "\<forall>x \<in> set (map fst post). timeOf x \<le> timeOf b"
    using post best by auto
  moreover have "r = Some \<lparr>cacheKey = originalKeyOf (metadata b') (name b), blobName = name b\<rparr>"
    using r best b' by (simp add: sortByLastModified_def)
  ultimately show ?thesis
    using b'(1) unfolding Cons by (simp only: list.case) blast
qed

lemma scanRestoreKeys_listings:
  assumes "scanRestoreKeys h rks w = (Inr r, w')"
  shows "filter isListing (trace w') =
           filter isListing (trace w) @
           map (\<lambda>k. Call (ListBlobsFlat (sanitizeBlobName h k)))
             (takeWhile (\<lambda>k. blobsWithPrefix (sanitizeBlobName h k) (container w) = []) rks @
              take 1 (dropWhile
                (\<lambda>k. blobsWithPrefix (sanitizeBlobName h k) (container w) = []) rks))"
  using assms
proof (induction rks arbitrary: w)
  case Nil
  then show ?case by (simp add: resolve_def)
next
  case (Cons k rks)
  let ?p = "sanitizeBlobName h k"
  from Cons.prems obtain bs w1 ms w2 where
    list: "listBlobsFlat ?p w = (Inr bs, w1)"
    and coll: "collectMatches bs [] w1 = (Inr ms, w2)"
    and rest: "(if length ms > 0
        then let bestMatch = hd (sortByLastModified ms)
             in resolve (Some \<lparr>cacheKey = snd bestMatch, blobName = name (fst bestMatch)\<rparr>)
        else scanRestoreKeys h rks) w2 = (Inr r, w')"
    by (auto elim!: awaitE simp: Let_def)
  from listBlobsFlat_result [OF list] have
    bs: "bs = blobsWithPrefix ?p (container w)" and c1: "container w1 = container w"
    and t1: "trace w1 = trace w @ [Call (ListBlobsFlat ?p)]"
    by simp_all
  from collectMatches_result [OF coll] have ms: "map fst ms = bs"
    by auto
  have c2: "container w2 = container w"
    using preservesD [OF collectMatches_preserves [OF blind_container [of "\<lambda>ev. True"]], of bs "[]" w1]
      coll c1 by simp
  have "filter isListing (trace w2) = filter isListing (trace w1)"
    using preservesD [OF collectMatches_preserves [OF blind_filter [of isListing]], of bs "[]" w1]
      coll by simp
  then have t2: "filter isListing (trace w2) =
      filter isListing (trace w) @ [Call (ListBlobsFlat ?p)]"
    by (simp add: t1)
  show ?case
  proof (cases "ms = []")
    case True
    then have "bs = []" using ms by simp
    moreover from True rest have "scanRestoreKeys h rks w2 = (Inr r, w')" by simp
    ultimately show ?thesis
      using Cons.IH [of w2, unfolded c2 t2] bs by simp
  next
    case False
    then have "bs \<noteq> []" using ms by auto
    moreover from False rest have "w' = w2"
      by (simp add: resolve_def Let_def)
    ultimately show ?thesis
      using bs t2 by simp
  qed
qed

lemma getProperties_returns:
  assumes "rejects (env w) (GetProperties n) = None" and "n \<in> name ` set (container w)"
  shows "\<exists>md w'. getProperties n w = (Inr md, w')"
proof -
  from assms(2) have "find (\<lambda>x. name x = n) (container w) \<noteq> None"
    by (auto simp: find_None_iff)
  then show ?thesis
    using assms(1) by (auto simp: getProperties_def external_accepted resolve_def)
qed

lemma collectMatches_returns:
  assumes "\<And>n. rejects (env w) (GetProperties n) = None" and "set bs \<subseteq> set (container w)"
  shows "\<exists>ms w'. collectMatches bs acc w = (Inr ms, w')"
  using assms
proof (induction bs arbitrary: acc w)
  case Nil
  then show ?case by (simp add: resolve_def)
next
  case (Cons b bs)
  from Cons.prems have "name b \<in> name ` set (container w)" by auto
  from getProperties_returns [OF Cons.prems(1) this] obtain md w1 where
    props: "getProperties (name b) w = (Inr md, w1)" by blast
  have "env w1 = env w" "container w1 = container w"
    using preservesD [OF getProperties_preserves [OF blind_env [of "\<lambda>ev. True"]], of "name b" w]
      preservesD [OF getProperties_preserves [OF blind_container [of "\<lambda>ev. True"]], of "name b" w]
      props by simp_all
  with Cons.IH [of w1] Cons.prems obtain ms w' where
    "collectMatches bs (acc @ [(b, originalKeyOf md (name b))]) w1 = (Inr ms, w')"
    by (metis set_subset_Cons subset_trans)
  with props show ?case
    by (simp add: await_def Let_def)
qed

lemma blobsWithPrefix_subset: "set (blobsWithPrefix p bs) \<subseteq> set bs"
  by (auto simp: blobsWithPrefix_def)

lemma scanRestoreKeys_returns:
  assumes "\<And>n. rejects (env w) (GetProperties n) = None"
      and "\<And>p. rejects (env w) (ListBlobsFlat p) = None"
  shows "\<exists>r w'. scanRestoreKeys h rks w = (Inr r, w')"
  using assms
proof (induction rks arbitrary: w)
  case Nil
  then show ?case by (simp add: resolve_def)
next
  case (Cons k rks)
  let ?p = "sanitizeBlobName h k"
  let ?w1 = "w\<lparr>trace := trace w @ [Call (ListBlobsFlat ?p)]\<rparr>"
  let ?bs = "blobsWithPrefix ?p (container w)"
  have list: "listBlobsFlat ?p w = (Inr ?bs, ?w1)"
    using Cons.prems(2) by (simp add: listBlobsFlat_def external_accepted resolve_def)
  have "\<exists>ms w2. collectMatches ?bs [] ?w1 = (Inr ms, w2)"
    by (rule collectMatches_returns) (use Cons.prems(1) blobsWithPrefix_subset in auto)
  then obtain ms w2 where coll: "collectMatches ?bs [] ?w1 = (Inr ms, w2)"
    by blast
  have e2: "env w2 = env w"
    using preservesD [OF collectMatches_preserves [OF blind_env [of "\<lambda>ev. True"]], of ?bs "[]" ?w1]
      coll by simp
  show ?case
  proof (cases "ms = []")
    case True
    from Cons.IH [of w2] Cons.prems obtain r w' where "scanRestoreKeys h rks w2 = (Inr r, w')"
      unfolding e2 by blast
    with True list coll show ?thesis
      by (simp add: await_def Let_def)
  next
    case False
    with list coll show ?thesis
      by (simp add: await_def Let_def resolve_def)
  qed
qed

lemma unmatched_eq:
  "unmatched h w = (\<lambda>k. blobsWithPrefix (sanitizeBlobName h k) (container w) = [])"
  by (rule ext) (simp add: unmatched_def)

lemma findMatchingBlob_falls_back:
  assumes "\<And>c. rejects (env w) c = None"
      and "sanitizeBlobName h pk \<notin> name ` set (container w)"
  shows "\<exists>r w'. findMatchingBlob h pk rks w = (Inr r, w') \<and>
           scanRestoreKeys h rks (w\<lparr>trace := trace w @ [Call (Exists (sanitizeBlobName h pk))]\<rparr>)
             = (Inr r, w')"
proof -
  let ?w1 = "w\<lparr>trace := trace w @ [Call (Exists (sanitizeBlobName h pk))]\<rparr>"
  have "findMatchingBlob h pk rks w = scanRestoreKeys h rks ?w1"
    using assms
    by (simp add: findMatchingBlob_def blob_exists_def await_def external_accepted resolve_def
          Let_def)
  moreover have "\<exists>r w'. scanRestoreKeys h rks ?w1 = (Inr r, w')"
    by (rule scanRestoreKeys_returns) (simp_all add: assms(1))
  ultimately show ?thesis
    by auto
qed


lemma ensureContainerExists_returns: "fst (ensureContainerExists w) = Inr ()"
  by (simp add: ensureContainerExists_def createIfNotExists_def run_defs split: option.splits)

lemma tryFinallyE:
  assumes "tryFinally m cleanup w = (Inr v, w')"
  obtains w1 where "m w = (Inr v, w1)" and "cleanup w1 = (Inr (), w')"
  using assms unfolding tryFinally_def
  by (auto split: prod.splits sum.splits failure.splits)



lemma offDisk_env: "offDisk env"
  by (simp add: offDisk_def)

lemma offDisk_container: "offDisk container"
  by (simp add: offDisk_def)

lemma offDisk_blind: "offDisk obs \<Longrightarrow> blind obs (\<lambda>ev. True)"
  by (simp add: offDisk_def blind_def)

lemma offDisk_external:
  assumes "offDisk obs" and "preserves obs effect"
  shows "preserves obs (external c effect)"
  by (rule preserves_external [OF offDisk_blind [OF assms(1)] _ assms(2)]) simp

lemma offDisk_emit: "offDisk obs \<Longrightarrow> preserves obs (emit ev)"
  by (rule preserves_emit [OF offDisk_blind]) simp_all

lemma offDisk_disk_calls:
  assumes "offDisk obs"
  shows "preserves obs (mkdir p)" and "preserves obs (rm p)" and "preserves obs (stat p)"
    and "preserves obs (writeFile p)" and "preserves obs (pipe n p)"
    and "preserves obs (unlink p)" and "preserves obs (which check)"
    and "preserves obs (exec tool args)"
proof -
  note ext = offDisk_external [OF assms]
  from assms have off: "obs (w\<lparr>disk := d\<rparr>) = obs w" for w d
    by (simp add: offDisk_def)
  show "preserves obs (mkdir p)"
    unfolding mkdir_def by (rule ext) (simp add: preserves_def resolve_def off)
  show "preserves obs (rm p)"
    unfolding rm_def by (rule ext) (simp add: preserves_def resolve_def off)
  show "preserves obs (stat p)"
    unfolding stat_def by (rule ext) (simp add: preserves_def resolve_def throw_def)
  show "preserves obs (writeFile p)"
    unfolding writeFile_def by (rule ext) (simp add: preserves_def resolve_def off)
  show "preserves obs (pipe n p)"
    unfolding pipe_def
    by (rule ext) (simp add: preserves_def resolve_def unsettled_def off split: option.splits)
  show "preserves obs (unlink p)"
    unfolding unlink_def by (rule ext) (simp add: preserves_def resolve_def throw_def off)
  show "preserves obs (which check)"
    unfolding which_def by (rule ext) (simp add: preserves_def resolve_def throw_def)
  show "preserves obs (exec tool args)"
    unfolding exec_def
    by (rule ext) (simp add: preserves_def resolve_def Let_def off split: option.splits)
qed

lemma getTarPath_offDisk:
  assumes "offDisk obs"
  shows "preserves obs getTarPath"
  unfolding getTarPath_def
  by (intro preserves_intros offDisk_disk_calls [OF assms])

lemma createArchive_offDisk:
  assumes "offDisk obs"
  shows "preserves obs (createArchive archiveFolder cachePaths options)"
  unfolding createArchive_def
  by (intro preserves_intros offDisk_disk_calls [OF assms] getTarPath_offDisk [OF assms]
        offDisk_emit [OF assms])

lemma createTempDirectory_offDisk:
  assumes "offDisk obs"
  shows "preserves obs createTempDirectory"
  unfolding createTempDirectory_def
  by (intro preserves_intros offDisk_disk_calls [OF assms])

lemma cleanupTempDirectory_offDisk:
  assumes "offDisk obs"
  shows "preserves obs (cleanupTempDirectory tempDir)"
  unfolding cleanupTempDirectory_def
  by (intro preserves_intros offDisk_disk_calls [OF assms] offDisk_emit [OF assms])

lemma ensureContainerExists_offDisk:
  assumes "offDisk obs"
  shows "preserves obs ensureContainerExists"
  by (rule ensureContainerExists_preserves [OF offDisk_blind [OF assms]]) simp_all

lemma uploadBlob_result:
  assumes "uploadBlob n sourcePath key w = (Inr u, w')"
  shows "container w' =
           putBlob \<lparr>name = n, lastModified = Some (dateNow (env w)),
                    metadata = Some [(CACHE_KEY_METADATA, key),
                                     (CREATED_AT_METADATA, dateISO (env w))]\<rparr> (container w)"
    and "env w' = env w"
  using assms unfolding uploadBlob_def uploadStream_def stat_def
  by (auto elim!: awaitE external_InrE simp: emit_def ask_def resolve_def throw_def
        split: if_splits)


lemma preserves_run: "preserves obs m \<Longrightarrow> m w = (r, w') \<Longrightarrow> obs w' = obs w"
  by (metis preservesD snd_conv)

lemma archiveAndUpload_result:
  assumes "archiveAndUpload paths pk n w = (Inr v, w')"
  shows "container w' =
           putBlob \<lparr>name = n, lastModified = Some (dateNow (env w)),
                    metadata = Some [(CACHE_KEY_METADATA, pk),
                                     (CREATED_AT_METADATA, dateISO (env w))]\<rparr> (container w)"
    and "env w' = env w"
proof -
  from assms obtain tempDir w1 w2 archivePath w3 size w4 w5 w6 w7 u where
    tmp: "createTempDirectory w = (Inr tempDir, w1)"
    and arch: "createArchive tempDir paths \<lparr>compressionMethod = providerCompressionMethod\<rparr> w1 =
                 (Inr archivePath, w3)"
    and st: "stat archivePath w3 = (Inr size, w4)"
    and e1: "emit (Info (js ''Archive created: '' @ toFixed2MB size @ js '' MB'')) w4 =
               (Inr (), w5)"
    and up: "uploadBlob n archivePath pk w5 = (Inr u, w6)"
    and e2: "emit (Info (js ''Cache saved with key: '' @ pk)) w6 = (Inr (), w7)"
    and ret: "ask dateNow w7 = (Inr v, w2)"
    and clean: "cleanupTempDirectory tempDir w2 = (Inr (), w')"
    unfolding archiveAndUpload_def by (elim awaitE tryFinallyE) auto
  have before: "obs w5 = obs w" if "offDisk obs" for obs :: "world \<Rightarrow> 'x"
    using preserves_run [OF createTempDirectory_offDisk [OF that] tmp]
      preserves_run [OF createArchive_offDisk [OF that] arch]
      preserves_run [OF offDisk_disk_calls(3) [OF that] st]
      preserves_run [OF offDisk_emit [OF that] e1]
    by simp
  have after: "obs w' = obs w6" if "offDisk obs" for obs :: "world \<Rightarrow> 'x"
    using preserves_run [OF offDisk_emit [OF that] e2]
      preserves_run [OF preserves_ask [of obs] ret]
      preserves_run [OF cleanupTempDirectory_offDisk [OF that] clean]
    by simp
  from uploadBlob_result [OF up] before [OF offDisk_env] before [OF offDisk_container]
    after [OF offDisk_env] after [OF offDisk_container]
  show "container w' =
           putBlob \<lparr>name = n, lastModified = Some (dateNow (env w)),
                    metadata = Some [(CACHE_KEY_METADATA, pk),
                                     (CREATED_AT_METADATA, dateISO (env w))]\<rparr> (container w)"
    and "env w' = env w"
    by simp_all
qed

lemma saveCache_success:
  assumes "fst (saveCache h paths pk w) = Inr v" and "v \<noteq> - 1"
  shows "rejects (env w) (Exists (sanitizeBlobName h pk)) = None"
    and "sanitizeBlobName h pk \<notin> name ` set (container w)"
    and "container (snd (saveCache h paths pk w)) =
           putBlob \<lparr>name = sanitizeBlobName h pk, lastModified = Some (dateNow (env w)),
                    metadata = Some [(CACHE_KEY_METADATA, pk),
                                     (CREATED_AT_METADATA, dateISO (env w))]\<rparr> (container w)"
    and "env (snd (saveCache h paths pk w)) = env w"
proof -
  let ?n = "sanitizeBlobName h pk"
  obtain res w' where body: "saveCache_try h paths pk w = (res, w')"
    by (cases "saveCache_try h paths pk w")
  have res: "res = Inr v" and same: "saveCache h paths pk w = (Inr v, w')"
    using assms body
    by (auto simp: saveCache_def tryCatch_def await_def emit_def resolve_def
          split: sum.splits failure.splits)
  from body res obtain w1 w2 alreadyExists where
    ens: "ensureContainerExists w = (Inr (), w1)"
    and ex: "blob_exists ?n w1 = (Inr alreadyExists, w2)"
    and rest: "(if alreadyExists
        then await (emit (Info (js ''Cache already exists for key: '' @ pk @
                                js '', skipping save''))) (\<lambda>u. resolve (- 1))
        else archiveAndUpload paths pk ?n) w2 = (Inr v, w')"
    unfolding saveCache_try_def by (auto elim!: awaitE simp: Let_def)
  have e1: "env w1 = env w" and c1: "container w1 = container w"
    using preserves_run [OF ensureContainerExists_offDisk [OF offDisk_env] ens]
      preserves_run [OF ensureContainerExists_offDisk [OF offDisk_container] ens]
    by simp_all
  from ex have accepted: "rejects (env w1) (Exists ?n) = None"
    and answer: "alreadyExists = (?n \<in> name ` set (container w1))"
    and e2: "env w2 = env w1" and c2: "container w2 = container w1"
    unfolding blob_exists_def by (auto elim!: external_InrE simp: resolve_def)
  have absent: "\<not> alreadyExists"
    using rest assms(2) by (auto simp: await_def emit_def resolve_def split: if_splits)
  with rest have "archiveAndUpload paths pk ?n w2 = (Inr v, w')"
    by simp
  from archiveAndUpload_result [OF this]
  show "rejects (env w) (Exists ?n) = None"
    and "?n \<notin> name ` set (container w)"
    and "container (snd (saveCache h paths pk w)) =
           putBlob \<lparr>name = ?n, lastModified = Some (dateNow (env w)),
                    metadata = Some [(CACHE_KEY_METADATA, pk),
                                     (CREATED_AT_METADATA, dateISO (env w))]\<rparr> (container w)"
    and "env (snd (saveCache h paths pk w)) = env w"
    using accepted answer absent e1 e2 c1 c2 same by simp_all
qed

lemma saveCache_existing:
  assumes "sanitizeBlobName h pk \<in> name ` set (container w)"
  shows "fst (saveCache h paths pk w) = Inr (- 1)"
    and "container (snd (saveCache h paths pk w)) = container w"
    and "disk (snd (saveCache h paths pk w)) = disk w"
    and "filter (\<lambda>ev. \<not> isQuery ev) (trace (snd (saveCache h paths pk w))) =
           filter (\<lambda>ev. \<not> isQuery ev) (trace w)"
proof -
  let ?n = "sanitizeBlobName h pk"
  obtain w1 where ens: "ensureContainerExists w = (Inr (), w1)"
    using ensureContainerExists_returns [of w] by (cases "ensureContainerExists w") auto
  have e1: "env w1 = env w" and c1: "container w1 = container w" and d1: "disk w1 = disk w"
    and t1: "filter (\<lambda>ev. \<not> isQuery ev) (trace w1) = filter (\<lambda>ev. \<not> isQuery ev) (trace w)"
    using preserves_run [OF ensureContainerExists_offDisk [OF offDisk_env] ens]
      preserves_run [OF ensureContainerExists_offDisk [OF offDisk_container] ens]
      preserves_run [OF ensureContainerExists_preserves [OF blind_disk [of "\<lambda>ev. True"]] ens]
      preserves_run [OF ensureContainerExists_preserves [OF blind_isQuery] ens]
    by simp_all
  have "\<exists>line. isQuery line \<and>
      saveCache h paths pk w =
        (Inr (- 1), w1\<lparr>trace := trace w1 @ [Call (Exists ?n), line]\<rparr>)"
  proof (cases "rejects (env w) (Exists ?n)")
    case None
    then have "saveCache h paths pk w =
        (Inr (- 1),
         w1\<lparr>trace := trace w1 @
              [Call (Exists ?n),
               Info (js ''Cache already exists for key: '' @ pk @ js '', skipping save'')]\<rparr>)"
      using ens assms e1 c1
      by (simp add: saveCache_def saveCache_try_def blob_exists_def tryCatch_def await_def
            emit_def resolve_def external_accepted Let_def)
    then show ?thesis
      by (intro exI [of _ "Info (js ''Cache already exists for key: '' @ pk @
                                  js '', skipping save'')"]) simp
  next
    case (Some e)
    then have "saveCache h paths pk w =
        (Inr (- 1),
         w1\<lparr>trace := trace w1 @
              [Call (Exists ?n), Warning (js ''Failed to save cache: '' @ message e)]\<rparr>)"
      using ens e1
      by (simp add: saveCache_def saveCache_try_def blob_exists_def tryCatch_def await_def
            emit_def resolve_def external_rejected Let_def)
    then show ?thesis
      by (intro exI [of _ "Warning (js ''Failed to save cache: '' @ message e)"]) simp
  qed
  then obtain line where line: "isQuery line"
    and run: "saveCache h paths pk w =
        (Inr (- 1), w1\<lparr>trace := trace w1 @ [Call (Exists ?n), line]\<rparr>)"
    by blast
  show "fst (saveCache h paths pk w) = Inr (- 1)"
    and "container (snd (saveCache h paths pk w)) = container w"
    and "disk (snd (saveCache h paths pk w)) = disk w"
    and "filter (\<lambda>ev. \<not> isQuery ev) (trace (snd (saveCache h paths pk w))) =
           filter (\<lambda>ev. \<not> isQuery ev) (trace w)"
    unfolding run using c1 d1 t1 line by simp_all
qed

lemma putBlob_new:
  assumes "name b \<notin> name ` set bs"
  shows "filter (\<lambda>x. name x = name b) (putBlob b bs) = [b]"
    and "find (\<lambda>x. name x = name b) (putBlob b bs) = Some b"
    and "name b \<in> name ` set (putBlob b bs)"
  using assms by (induction bs) auto

lemma find_by_name:
  assumes "distinct (map name bs)" and "b \<in> set bs"
  shows "find (\<lambda>x. name x = name b) bs = Some b"
  using assms by (induction bs) (auto simp: rev_image_eqI)

lemma sanitizeBlobName_empty: "sanitizeBlobName h [] = []"
  by (simp add: sanitizeBlobName_def replaceInvalid_def replaceAll_def)

lemma originalKeyOf_saved:
  "originalKeyOf (Some [(CACHE_KEY_METADATA, pk), (CREATED_AT_METADATA, created)])
     (sanitizeBlobName h pk) = pk"
  by (simp add: originalKeyOf_def sanitizeBlobName_empty)

lemma findMatchingBlob_prefix_resolved:
  assumes "fst (findMatchingBlob h pk rks w) = Inr (Some m)"
      and "sanitizeBlobName h pk \<notin> name ` set (container w)"
  shows "\<exists>b b'. b \<in> set (container w) \<and> find (\<lambda>x. name x = name b) (container w) = Some b' \<and>
           m = \<lparr>cacheKey = originalKeyOf (metadata b') (name b), blobName = name b\<rparr>"
proof -
  let ?n = "sanitizeBlobName h pk"
  obtain w' where run: "findMatchingBlob h pk rks w = (Inr (Some m), w')"
    using assms(1) by (cases "findMatchingBlob h pk rks w") auto
  then obtain primaryExists w1 where
    ex: "blob_exists ?n w = (Inr primaryExists, w1)"
    and rest: "(if primaryExists then resolve (Some \<lparr>cacheKey = pk, blobName = ?n\<rparr>)
                else scanRestoreKeys h rks) w1 = (Inr (Some m), w')"
    unfolding findMatchingBlob_def by (auto elim!: awaitE simp: Let_def)
  from ex have "primaryExists = (?n \<in> name ` set (container w))"
    and c1: "container w1 = container w"
    unfolding blob_exists_def by (auto elim!: external_InrE simp: resolve_def)
  with assms(2) rest have scan: "scanRestoreKeys h rks w1 = (Inr (Some m), w')"
    by simp
  note sel = scanRestoreKeys_selects [OF scan, unfolded c1]
  show ?thesis
  proof (cases "dropWhile (\<lambda>k. blobsWithPrefix (sanitizeBlobName h k) (container w) = []) rks")
    case Nil
    show ?thesis
      using sel unfolding Nil by simp
  next
    case (Cons k later)
    from sel [unfolded Cons list.case]
    obtain pre b post b' where
      split: "blobsWithPrefix (sanitizeBlobName h k) (container w) = pre @ b # post"
      and find: "find (\<lambda>x. name x = name b) (container w) = Some b'"
      and m: "Some m = Some \<lparr>cacheKey = originalKeyOf (metadata b') (name b),
                              blobName = name b\<rparr>"
      by blast
    have "b \<in> set (blobsWithPrefix (sanitizeBlobName h k) (container w))"
      unfolding split by simp
    then have "b \<in> set (container w)"
      using blobsWithPrefix_subset by blast
    with find m show ?thesis
      by auto
  qed
qed


lemma settlesD: "settles m \<Longrightarrow> fst (m w) \<noteq> Inl (Unsettled e)"
  by (simp add: settles_def)

lemma settles_resolve [settles_intros]: "settles (resolve v)"
  by (simp add: settles_def resolve_def)

lemma settles_throw [settles_intros]: "settles (throw e)"
  by (simp add: settles_def throw_def)

lemma settles_ask [settles_intros]: "settles (ask f)"
  by (simp add: settles_def ask_def)

lemma settles_emit [settles_intros]: "settles (emit ev)"
  by (simp add: settles_def emit_def)

lemma settles_await [settles_intros]:
  "settles m \<Longrightarrow> (\<And>v. settles (k v)) \<Longrightarrow> settles (await m k)"
  unfolding settles_def await_def
  by (auto split: prod.splits sum.splits) (metis fst_conv)+

lemma settles_tryCatch [settles_intros]:
  "settles m \<Longrightarrow> (\<And>e. settles (h e)) \<Longrightarrow> settles (tryCatch m h)"
  unfolding settles_def tryCatch_def
  by (auto split: prod.splits sum.splits failure.splits) (metis fst_conv)+

lemma settles_tryFinally [settles_intros]:
  "settles m \<Longrightarrow> settles c \<Longrightarrow> settles (tryFinally m c)"
  unfolding settles_def tryFinally_def
  by (auto split: prod.splits sum.splits failure.splits) (metis fst_conv)+

lemma settles_external [settles_intros]:
  "settles effect \<Longrightarrow> settles (external c effect)"
  unfolding settles_def external_def
  by (auto simp: Let_def split: option.splits)

lemma settles_if [settles_intros]:
  "(b \<Longrightarrow> settles m) \<Longrightarrow> (\<not> b \<Longrightarrow> settles n) \<Longrightarrow> settles (if b then m else n)"
  by simp

lemma settles_case_option [settles_intros]:
  "settles m \<Longrightarrow> (\<And>x. settles (n x)) \<Longrightarrow> settles (case x of None \<Rightarrow> m | Some y \<Rightarrow> n y)"
  by (cases x) simp_all

lemma settles_Let [settles_intros]:
  "(\<And>x. settles (f x)) \<Longrightarrow> settles (let x = v in f x)"
  by simp

lemma settles_effect:
  "settles (\<lambda>w. resolve v (f w))"
  "settles (\<lambda>w. if c w then resolve (g w) (f w) else throw e w)"
  by (simp_all add: settles_def resolve_def throw_def)

lemma settles_storage:
  "settles createIfNotExists" "settles (blob_exists n)" "settles (listBlobsFlat p)"
  "settles (getProperties n)" "settles (download n)" "settles (uploadStream n src md)"
  unfolding storage_defs
  by (rule settles_external,
      simp add: settles_def resolve_def throw_def split: option.splits)+

lemma settles_disk:
  "settles (mkdir p)" "settles (rm p)" "settles (stat p)" "settles (writeFile p)"
  "settles (unlink p)" "settles (which check)" "settles (exec tool args)"
  unfolding mkdir_def rm_def stat_def writeFile_def unlink_def which_def exec_def
  by (rule settles_external,
      simp add: settles_def resolve_def throw_def Let_def split: option.splits)+

lemma collectMatches_settles: "settles (collectMatches bs acc)"
  by (induction bs arbitrary: acc) (auto intro!: settles_intros settles_storage)

lemma scanRestoreKeys_settles: "settles (scanRestoreKeys h rks)"
  by (induction rks)
     (auto intro!: settles_intros settles_storage collectMatches_settles simp: Let_def)

lemma findMatchingBlob_settles: "settles (findMatchingBlob h pk rks)"
  unfolding findMatchingBlob_def
  by (auto intro!: settles_intros settles_storage scanRestoreKeys_settles simp: Let_def)

lemma ensureContainerExists_settles: "settles ensureContainerExists"
  unfolding ensureContainerExists_def
  by (intro settles_intros settles_storage)

lemma getTarPath_settles: "settles getTarPath"
  unfolding getTarPath_def
  by (intro settles_intros settles_disk)

lemma createArchive_settles: "settles (createArchive archiveFolder cachePaths options)"
  unfolding createArchive_def
  by (intro settles_intros settles_disk getTarPath_settles)

lemma uploadBlob_settles: "settles (uploadBlob n src key)"
  unfolding uploadBlob_def
  by (intro settles_intros settles_disk settles_storage)

lemma archiveAndUpload_settles: "settles (archiveAndUpload paths pk n)"
  unfolding archiveAndUpload_def createTempDirectory_def cleanupTempDirectory_def
  by (intro settles_intros settles_disk createArchive_settles uploadBlob_settles)

lemma saveCache_try_settles: "settles (saveCache_try h paths pk)"
  unfolding saveCache_try_def
  by (intro settles_intros settles_storage ensureContainerExists_settles
        archiveAndUpload_settles)

text \<open>\<open>saveCache\<close> gives a value on every input.\<close>

lemma saveCache_returns: "\<exists>v. fst (saveCache h paths pk w) = Inr v"
proof (cases "saveCache_try h paths pk w")
  case (Pair res w')
  with settlesD [OF saveCache_try_settles, of h paths pk w] show ?thesis
    by (auto simp: saveCache_def tryCatch_def await_def emit_def resolve_def
          split: sum.splits failure.splits)
qed


lemma saveCache_catches:
  assumes "fst (saveCache_try h paths pk w) = Inl (Thrown e)"
  shows "fst (saveCache h paths pk w) = Inr (- 1)"
    and "trace (snd (saveCache h paths pk w)) =
           trace (snd (saveCache_try h paths pk w)) @
           [Warning (js ''Failed to save cache: '' @ message e)]"
  using assms unfolding saveCache_def
  by (auto simp: tryCatch_def await_def emit_def resolve_def split: prod.splits)


section \<open>Evaluating the examples\<close>

lemma sanitize_v1: "sanitizeBlobName h (js ''linux-v1'') = js ''linux-v1''"
  by (simp add: sanitizeBlobName_def replaceInvalid_def replaceAll_def js_def
        isWhiteSpace_def MAX_BLOB_NAME_LENGTH_def)


lemma sanitize_prefixes:
  "sanitizeBlobName h (js ''linux-v3'') = js ''linux-v3''"
  "sanitizeBlobName h (js ''linux-v3-'') = js ''linux-v3-''"
  "sanitizeBlobName h (js ''linux-v2'') = js ''linux-v2''"
  "sanitizeBlobName h (js ''linux-'') = js ''linux-''"
  by (simp_all add: string_defs)


lemma saveCache_worldEmpty:
  "fst (saveCache constantDigest [js ''build''] (js ''linux-v1'') worldEmpty) =
     Inr 1700000000000"
  unfolding sanitize_v1 saveCache_def saveCache_try_def
  by (simp add: worldEmpty_def quietEnvironment_def ensureContainerExists_def
        archiveAndUpload_def createTempDirectory_def cleanupTempDirectory_def
        createArchive_def getTarPath_def uploadBlob_def providerCompressionMethod_def
        path_join_def run_defs storage_defs disk_defs js_def)

lemma findMatchingBlob_worldWithV1V2:
  "fst (findMatchingBlob constantDigest (js ''linux-v3'') [js ''linux-''] worldWithV1V2) =
     Inr (Some \<lparr>cacheKey = js ''linux-v2'', blobName = js ''linux-v2''\<rparr>)"
  by (simp add: worldWithV1V2_def blobV1_def blobV2_def quietEnvironment_def
        findMatchingBlob_def run_defs storage_defs string_defs sortByLastModified_def
        timeOf_def originalKeyOf_def CACHE_KEY_METADATA_def)







section \<open>Resolution\<close>

text \<open>
  Claim C1. If a blob is stored under the sanitized primary key, and the existence probe
  answers, \<open>findMatchingBlob\<close> returns the exact match: \<open>cacheKey\<close> is the primary
  key and \<open>blobName\<close> its sanitized name, whatever the list of restore keys. The probe is
  the only call made: nothing is listed, so no prefix match is considered.
\<close>

theorem findMatchingBlob_exact_match:
  assumes "rejects (env w) (Exists (sanitizeBlobName sha256hex primaryKey)) = None"
      and "sanitizeBlobName sha256hex primaryKey \<in> name ` set (container w)"
  shows "findMatchingBlob sha256hex primaryKey restoreKeys w =
           (Inr (Some \<lparr>cacheKey = primaryKey,
                       blobName = sanitizeBlobName sha256hex primaryKey\<rparr>),
            w\<lparr>trace := trace w @ [Call (Exists (sanitizeBlobName sha256hex primaryKey))]\<rparr>)"
  using assms
  by (simp add: findMatchingBlob_def blob_exists_def await_def external_accepted resolve_def
        Let_def)

theorem findMatchingBlob_exact_match_witness:
  "rejects (env worldWithV1) (Exists (sanitizeBlobName constantDigest (js ''linux-v1''))) = None
   \<and> sanitizeBlobName constantDigest (js ''linux-v1'') \<in> name ` set (container worldWithV1)
   \<and> fst (findMatchingBlob constantDigest (js ''linux-v1'') [js ''linux-'', js ''lin'']
           worldWithV1) =
       Inr (Some \<lparr>cacheKey = js ''linux-v1'', blobName = js ''linux-v1''\<rparr>)"
proof -
  have a: "rejects (env worldWithV1)
             (Exists (sanitizeBlobName constantDigest (js ''linux-v1''))) = None"
    by (simp add: worldWithV1_def quietEnvironment_def)
  have b: "sanitizeBlobName constantDigest (js ''linux-v1'') \<in> name ` set (container worldWithV1)"
    by (simp add: sanitize_v1 worldWithV1_def blobV1_def)
  from findMatchingBlob_exact_match [OF a b, of "[js ''linux-'', js ''lin'']"] a b
  show ?thesis
    by (simp add: sanitize_v1)
qed

text \<open>
  Claim C2. With no exact match and a storage service that answers every call,
  \<open>findMatchingBlob\<close> returns. If no restore key, sanitized, is a prefix of a stored
  name, the result is absent. Otherwise the result names a blob \<open>b\<close> among those matching
  the first restore key, in the caller's order, that matches anything, and no blob matching
  that key has a later time than \<open>b\<close> (\<open>timeOf\<close> is the reported \<open>lastModified\<close>, or 0 where
  it is missing). The listing calls made are those of the restore keys up to and including
  that first matching one, in order: later keys are not scanned.
\<close>

theorem findMatchingBlob_prefix_fallback:
  assumes "\<And>c. rejects (env w) c = None"
      and "sanitizeBlobName h primaryKey \<notin> name ` set (container w)"
  shows "\<exists>r w'. findMatchingBlob h primaryKey restoreKeys w = (Inr r, w') \<and>
           (case dropWhile (unmatched h w) restoreKeys of
              [] \<Rightarrow> r = None
            | k # later \<Rightarrow>
                \<exists>b \<in> set (blobsWithPrefix (sanitizeBlobName h k) (container w)).
                  (\<forall>x \<in> set (blobsWithPrefix (sanitizeBlobName h k) (container w)).
                      timeOf x \<le> timeOf b) \<and>
                  (\<exists>key. r = Some \<lparr>cacheKey = key, blobName = name b\<rparr>)) \<and>
           filter isListing (trace w') =
             filter isListing (trace w) @
             map (\<lambda>k. Call (ListBlobsFlat (sanitizeBlobName h k)))
               (takeWhile (unmatched h w) restoreKeys @
                take 1 (dropWhile (unmatched h w) restoreKeys))"
proof -
  let ?w1 = "w\<lparr>trace := trace w @ [Call (Exists (sanitizeBlobName h primaryKey))]\<rparr>"
  from findMatchingBlob_falls_back [OF assms] obtain r w' where
    run: "findMatchingBlob h primaryKey restoreKeys w = (Inr r, w')"
    and scan: "scanRestoreKeys h restoreKeys ?w1 = (Inr r, w')"
    by blast
  have sel0: "case dropWhile (unmatched h w) restoreKeys of
      [] \<Rightarrow> r = None
    | k # later \<Rightarrow>
        \<exists>pre b post b'.
          blobsWithPrefix (sanitizeBlobName h k) (container w) = pre @ b # post \<and>
          (\<forall>x \<in> set pre. timeOf x < timeOf b) \<and>
          (\<forall>x \<in> set post. timeOf x \<le> timeOf b) \<and>
          find (\<lambda>x. name x = name b) (container w) = Some b' \<and>
          r = Some \<lparr>cacheKey = originalKeyOf (metadata b') (name b), blobName = name b\<rparr>"
    using scanRestoreKeys_selects [OF scan] by (simp add: unmatched_eq cong: list.case_cong)
  have sel: "case dropWhile (unmatched h w) restoreKeys of
      [] \<Rightarrow> r = None
    | k # later \<Rightarrow>
        \<exists>b \<in> set (blobsWithPrefix (sanitizeBlobName h k) (container w)).
          (\<forall>x \<in> set (blobsWithPrefix (sanitizeBlobName h k) (container w)).
              timeOf x \<le> timeOf b) \<and>
          (\<exists>key. r = Some \<lparr>cacheKey = key, blobName = name b\<rparr>)"
  proof (cases "dropWhile (unmatched h w) restoreKeys")
    case Nil
    show ?thesis
      using sel0 unfolding Nil by simp
  next
    case (Cons k later)
    from sel0 [unfolded Cons list.case] obtain pre b post b' where
      split: "blobsWithPrefix (sanitizeBlobName h k) (container w) = pre @ b # post"
      and pre: "\<forall>x \<in> set pre. timeOf x < timeOf b"
      and post: "\<forall>x \<in> set post. timeOf x \<le> timeOf b"
      and "find (\<lambda>x. name x = name b) (container w) = Some b'"
      and r: "r = Some \<lparr>cacheKey = originalKeyOf (metadata b') (name b), blobName = name b\<rparr>"
      by (elim exE conjE)
    have "\<forall>x \<in> set (pre @ b # post). timeOf x \<le> timeOf b"
      using pre post by auto
    then show ?thesis
      unfolding Cons using split r by auto
  qed
  have "filter isListing (trace w') =
      filter isListing (trace w) @
      map (\<lambda>k. Call (ListBlobsFlat (sanitizeBlobName h k)))
        (takeWhile (unmatched h w) restoreKeys @ take 1 (dropWhile (unmatched h w) restoreKeys))"
    using scanRestoreKeys_listings [OF scan] by (simp add: unmatched_eq)
  with run sel show ?thesis
    by blast
qed

theorem findMatchingBlob_prefix_fallback_witness:
  "(\<forall>c. rejects (env worldWithV1V2) c = None)
   \<and> sanitizeBlobName constantDigest (js ''linux-v3'') \<notin> name ` set (container worldWithV1V2)
   \<and> (\<exists>key. fst (findMatchingBlob constantDigest (js ''linux-v3'')
                    [js ''linux-v3-'', js ''linux-''] worldWithV1V2) =
              Inr (Some \<lparr>cacheKey = key, blobName = js ''linux-v2''\<rparr>))"
proof -
  let ?rks = "[js ''linux-v3-'', js ''linux-'']"
  have a: "rejects (env worldWithV1V2) c = None" for c
    by (simp add: worldWithV1V2_def quietEnvironment_def)
  have b: "sanitizeBlobName constantDigest (js ''linux-v3'')
             \<notin> name ` set (container worldWithV1V2)"
    unfolding sanitize_prefixes by (simp add: worldWithV1V2_def blobV1_def blobV2_def js_def)
  have l: "blobsWithPrefix (js ''linux-'') (container worldWithV1V2) = [blobV1, blobV2]"
    by (simp add: worldWithV1V2_def blobV1_def blobV2_def blobsWithPrefix_def startsWith_def
          js_def)
  have l3: "blobsWithPrefix (js ''linux-v3-'') (container worldWithV1V2) = []"
    by (simp add: worldWithV1V2_def blobV1_def blobV2_def blobsWithPrefix_def startsWith_def
          js_def)
  have d: "dropWhile (unmatched constantDigest worldWithV1V2) ?rks = [js ''linux-'']"
    by (simp add: unmatched_def sanitize_prefixes l l3)
  have t: "timeOf blobV1 = 1000" "timeOf blobV2 = 2000" "name blobV2 = js ''linux-v2''"
    by (simp_all add: timeOf_def blobV1_def blobV2_def)
  from findMatchingBlob_prefix_fallback [OF a b, of ?rks] obtain r w' where
    run: "findMatchingBlob constantDigest (js ''linux-v3'') ?rks worldWithV1V2 = (Inr r, w')"
    and sel: "\<exists>b \<in> set [blobV1, blobV2]. (\<forall>x \<in> set [blobV1, blobV2]. timeOf x \<le> timeOf b) \<and>
               (\<exists>key. r = Some \<lparr>cacheKey = key, blobName = name b\<rparr>)"
    unfolding d list.case sanitize_prefixes l by blast
  from sel t have "\<exists>key. r = Some \<lparr>cacheKey = key, blobName = js ''linux-v2''\<rparr>"
    by auto
  with run a b show ?thesis
    by auto
qed

text \<open>
  Claim C9, as the code has it. Among the blobs matching the chosen prefix,
  \<open>findMatchingBlob\<close> returns the one the service lists first among those with the latest
  time: every blob listed before it is strictly older, every blob listed after it is not
  newer. There is no secondary key, so the choice among equal times follows the listing
  order.
\<close>

theorem findMatchingBlob_tie_by_listing_order:
  assumes "\<And>c. rejects (env w) c = None"
      and "sanitizeBlobName h primaryKey \<notin> name ` set (container w)"
  shows "\<exists>r. fst (findMatchingBlob h primaryKey restoreKeys w) = Inr r \<and>
           (case dropWhile (unmatched h w) restoreKeys of
              [] \<Rightarrow> r = None
            | k # later \<Rightarrow>
                \<exists>pre b post.
                  blobsWithPrefix (sanitizeBlobName h k) (container w) = pre @ b # post \<and>
                  (\<forall>x \<in> set pre. timeOf x < timeOf b) \<and>
                  (\<forall>x \<in> set post. timeOf x \<le> timeOf b) \<and>
                  (\<exists>key. r = Some \<lparr>cacheKey = key, blobName = name b\<rparr>))"
proof -
  let ?w1 = "w\<lparr>trace := trace w @ [Call (Exists (sanitizeBlobName h primaryKey))]\<rparr>"
  from findMatchingBlob_falls_back [OF assms] obtain r w' where
    run: "findMatchingBlob h primaryKey restoreKeys w = (Inr r, w')"
    and scan: "scanRestoreKeys h restoreKeys ?w1 = (Inr r, w')"
    by blast
  have sel0: "case dropWhile (unmatched h w) restoreKeys of
      [] \<Rightarrow> r = None
    | k # later \<Rightarrow>
        \<exists>pre b post b'.
          blobsWithPrefix (sanitizeBlobName h k) (container w) = pre @ b # post \<and>
          (\<forall>x \<in> set pre. timeOf x < timeOf b) \<and>
          (\<forall>x \<in> set post. timeOf x \<le> timeOf b) \<and>
          find (\<lambda>x. name x = name b) (container w) = Some b' \<and>
          r = Some \<lparr>cacheKey = originalKeyOf (metadata b') (name b), blobName = name b\<rparr>"
    using scanRestoreKeys_selects [OF scan] by (simp add: unmatched_eq cong: list.case_cong)
  have "case dropWhile (unmatched h w) restoreKeys of
      [] \<Rightarrow> r = None
    | k # later \<Rightarrow>
        \<exists>pre b post.
          blobsWithPrefix (sanitizeBlobName h k) (container w) = pre @ b # post \<and>
          (\<forall>x \<in> set pre. timeOf x < timeOf b) \<and>
          (\<forall>x \<in> set post. timeOf x \<le> timeOf b) \<and>
          (\<exists>key. r = Some \<lparr>cacheKey = key, blobName = name b\<rparr>)"
  proof (cases "dropWhile (unmatched h w) restoreKeys")
    case Nil
    show ?thesis
      using sel0 unfolding Nil by simp
  next
    case (Cons k later)
    show ?thesis
      using sel0 unfolding Cons by simp blast
  qed
  with run show ?thesis
    by auto
qed

theorem findMatchingBlob_tie_by_listing_order_witness:
  "(\<forall>c. rejects (env worldListingAB) c = None)
   \<and> sanitizeBlobName constantDigest (js ''linux-v2'') \<notin> name ` set (container worldListingAB)
   \<and> (\<exists>key. fst (findMatchingBlob constantDigest (js ''linux-v2'') [js ''linux-'']
                    worldListingAB) =
              Inr (Some \<lparr>cacheKey = key, blobName = js ''linux-a''\<rparr>))"
proof -
  let ?rks = "[js ''linux-'']"
  have a: "rejects (env worldListingAB) c = None" for c
    by (simp add: worldListingAB_def quietEnvironment_def)
  have b: "sanitizeBlobName constantDigest (js ''linux-v2'')
             \<notin> name ` set (container worldListingAB)"
    unfolding sanitize_prefixes by (simp add: worldListingAB_def blobA_def blobB_def js_def)
  have l: "blobsWithPrefix (js ''linux-'') (container worldListingAB) = [blobA, blobB]"
    by (simp add: worldListingAB_def blobA_def blobB_def blobsWithPrefix_def startsWith_def
          js_def)
  have d: "dropWhile (unmatched constantDigest worldListingAB) ?rks = [js ''linux-'']"
    by (simp add: unmatched_def sanitize_prefixes l)
  have t: "timeOf blobA = 1000" "timeOf blobB = 1000" "name blobA = js ''linux-a''"
    by (simp_all add: timeOf_def blobA_def blobB_def)
  from findMatchingBlob_tie_by_listing_order [OF a b, of ?rks] obtain r pre x post where
    run: "fst (findMatchingBlob constantDigest (js ''linux-v2'') ?rks worldListingAB) = Inr r"
    and split: "[blobA, blobB] = pre @ x # post"
    and pre: "\<forall>y \<in> set pre. timeOf y < timeOf x"
    and r: "\<exists>key. r = Some \<lparr>cacheKey = key, blobName = name x\<rparr>"
    unfolding d list.case sanitize_prefixes l by blast
  from split pre t have "x = blobA"
    by (auto simp: Cons_eq_append_conv)
  with r t have "\<exists>key. r = Some \<lparr>cacheKey = key, blobName = js ''linux-a''\<rparr>"
    by simp
  with run a b show ?thesis
    by auto
qed

text \<open>
  The same two blobs with the same time, listed in the two possible orders, resolve to
  different blobs.
\<close>

theorem findMatchingBlob_tie_counterexample:
  "set (container worldListingAB) = set (container worldListingBA)
   \<and> env worldListingAB = env worldListingBA
   \<and> fst (findMatchingBlob constantDigest (js ''linux-v2'') [js ''linux-''] worldListingAB) =
       Inr (Some \<lparr>cacheKey = js ''linux-a'', blobName = js ''linux-a''\<rparr>)
   \<and> fst (findMatchingBlob constantDigest (js ''linux-v2'') [js ''linux-''] worldListingBA) =
       Inr (Some \<lparr>cacheKey = js ''linux-b'', blobName = js ''linux-b''\<rparr>)"
  by (simp add: worldListingAB_def worldListingBA_def blobA_def blobB_def quietEnvironment_def
        findMatchingBlob_def run_defs storage_defs string_defs sortByLastModified_def
        timeOf_def originalKeyOf_def insert_commute)

section \<open>Cache keys in metadata\<close>

text \<open>
  Claim C7, as the code has it. A save that succeeds (its result is not the sentinel)
  leaves under the sanitized name a blob whose metadata has exactly two fields, \<open>cachekey\<close>
  with the caller's primary key verbatim and \<open>createdat\<close> with the ISO-8601 text of the
  current time, and from this metadata the key is recovered. A match found through a restore
  key names a blob of the container and reports as \<open>cacheKey\<close> the blob's \<open>cachekey\<close>
  metadata; it reports the blob's name instead when the metadata or the field is missing,
  and also when the field is the empty string.
\<close>

theorem cacheKey_metadata_round_trip:
  "(fst (saveCache h paths pk w) = Inr v \<and> v \<noteq> - 1 \<longrightarrow>
      find (\<lambda>b. name b = sanitizeBlobName h pk) (container (snd (saveCache h paths pk w))) =
        Some \<lparr>name = sanitizeBlobName h pk, lastModified = Some (dateNow (env w)),
              metadata = Some [(CACHE_KEY_METADATA, pk),
                               (CREATED_AT_METADATA, dateISO (env w))]\<rparr> \<and>
      originalKeyOf (Some [(CACHE_KEY_METADATA, pk), (CREATED_AT_METADATA, dateISO (env w))])
        (sanitizeBlobName h pk) = pk)
   \<and> (fst (findMatchingBlob h primaryKey restoreKeys w) = Inr (Some m) \<and>
       sanitizeBlobName h primaryKey \<notin> name ` set (container w) \<and>
       distinct (map name (container w)) \<longrightarrow>
      (\<exists>b \<in> set (container w). blobName m = name b \<and>
         cacheKey m =
           (case metadata b of
              None \<Rightarrow> name b
            | Some md \<Rightarrow>
                (case map_of md CACHE_KEY_METADATA of
                   None \<Rightarrow> name b
                 | Some key \<Rightarrow> if key = [] then name b else key))))"
proof (intro conjI impI)
  let ?n = "sanitizeBlobName h pk"
  let ?b = "\<lparr>name = ?n, lastModified = Some (dateNow (env w)),
             metadata = Some [(CACHE_KEY_METADATA, pk),
                              (CREATED_AT_METADATA, dateISO (env w))]\<rparr>"
  assume "fst (saveCache h paths pk w) = Inr v \<and> v \<noteq> - 1"
  then have ok: "fst (saveCache h paths pk w) = Inr v" "v \<noteq> - 1"
    by simp_all
  note s = saveCache_success [OF ok]
  have new: "name ?b \<notin> name ` set (container w)"
    using s(2) by simp
  show "find (\<lambda>b. name b = ?n) (container (snd (saveCache h paths pk w))) = Some ?b"
    using putBlob_new(2) [OF new] s(3) by simp
  show "originalKeyOf (Some [(CACHE_KEY_METADATA, pk), (CREATED_AT_METADATA, dateISO (env w))])
          ?n = pk"
    by (rule originalKeyOf_saved)
next
  assume "fst (findMatchingBlob h primaryKey restoreKeys w) = Inr (Some m) \<and>
    sanitizeBlobName h primaryKey \<notin> name ` set (container w) \<and>
    distinct (map name (container w))"
  then have run: "fst (findMatchingBlob h primaryKey restoreKeys w) = Inr (Some m)"
    and noexact: "sanitizeBlobName h primaryKey \<notin> name ` set (container w)"
    and dist: "distinct (map name (container w))"
    by simp_all
  from findMatchingBlob_prefix_resolved [OF run noexact] obtain b b' where
    b: "b \<in> set (container w)"
    and find: "find (\<lambda>x. name x = name b) (container w) = Some b'"
    and m: "m = \<lparr>cacheKey = originalKeyOf (metadata b') (name b), blobName = name b\<rparr>"
    by blast
  from find_by_name [OF dist b] find have "b' = b"
    by simp
  with m have "blobName m = name b" and "cacheKey m = originalKeyOf (metadata b) (name b)"
    by simp_all
  then show "\<exists>b \<in> set (container w). blobName m = name b \<and>
         cacheKey m =
           (case metadata b of
              None \<Rightarrow> name b
            | Some md \<Rightarrow>
                (case map_of md CACHE_KEY_METADATA of
                   None \<Rightarrow> name b
                 | Some key \<Rightarrow> if key = [] then name b else key))"
    using b by (auto simp: originalKeyOf_def split: option.splits)
qed

theorem cacheKey_metadata_round_trip_witness:
  "fst (saveCache constantDigest [js ''build''] (js ''linux-v1'') worldEmpty) =
     Inr 1700000000000
   \<and> find (\<lambda>b. name b = sanitizeBlobName constantDigest (js ''linux-v1''))
        (container (snd (saveCache constantDigest [js ''build''] (js ''linux-v1'')
                           worldEmpty))) =
       Some \<lparr>name = sanitizeBlobName constantDigest (js ''linux-v1''),
             lastModified = Some (dateNow (env worldEmpty)),
             metadata = Some [(CACHE_KEY_METADATA, js ''linux-v1''),
                              (CREATED_AT_METADATA, dateISO (env worldEmpty))]\<rparr>
   \<and> fst (findMatchingBlob constantDigest (js ''linux-v3'') [js ''linux-''] worldWithV1V2) =
       Inr (Some \<lparr>cacheKey = js ''linux-v2'', blobName = js ''linux-v2''\<rparr>)
   \<and> sanitizeBlobName constantDigest (js ''linux-v3'') \<notin> name ` set (container worldWithV1V2)
   \<and> distinct (map name (container worldWithV1V2))
   \<and> (\<exists>b \<in> set (container worldWithV1V2).
         js ''linux-v2'' = name b \<and>
         map_of (the (metadata b)) CACHE_KEY_METADATA = Some (js ''linux-v2''))"
proof -
  have noexact: "sanitizeBlobName constantDigest (js ''linux-v3'')
                   \<notin> name ` set (container worldWithV1V2)"
    unfolding sanitize_prefixes by (simp add: worldWithV1V2_def blobV1_def blobV2_def js_def)
  have dist: "distinct (map name (container worldWithV1V2))"
    by (simp add: worldWithV1V2_def blobV1_def blobV2_def js_def)
  have stored: "\<exists>b \<in> set (container worldWithV1V2).
      js ''linux-v2'' = name b \<and>
      map_of (the (metadata b)) CACHE_KEY_METADATA = Some (js ''linux-v2'')"
    by (simp add: worldWithV1V2_def blobV1_def blobV2_def)
  from cacheKey_metadata_round_trip
         [of constantDigest "[js ''build'']" "js ''linux-v1''" worldEmpty 1700000000000]
       cacheKey_metadata_round_trip
         [where h = constantDigest and primaryKey = "js ''linux-v3''"
            and restoreKeys = "[js ''linux-'']" and w = worldWithV1V2
            and m = "\<lparr>cacheKey = js ''linux-v2'', blobName = js ''linux-v2''\<rparr>"]
       saveCache_worldEmpty findMatchingBlob_worldWithV1V2 noexact dist stored
  show ?thesis
    by simp
qed

text \<open>
  A blob whose \<open>cachekey\<close> metadata is present and empty is reported under its name, not
  under the value of the field.
\<close>

theorem cacheKey_fallback_counterexample:
  "metadata blobBlank \<noteq> None
   \<and> map_of (the (metadata blobBlank)) CACHE_KEY_METADATA = Some []
   \<and> container worldBlankKey = [blobBlank]
   \<and> fst (findMatchingBlob constantDigest (js ''linux-v1'') [js ''linux-''] worldBlankKey) =
       Inr (Some \<lparr>cacheKey = name blobBlank, blobName = name blobBlank\<rparr>)
   \<and> name blobBlank \<noteq> []"
  by (simp add: worldBlankKey_def blobBlank_def quietEnvironment_def
        findMatchingBlob_def run_defs storage_defs string_defs sortByLastModified_def
        timeOf_def originalKeyOf_def)


section \<open>Lookup-only restore\<close>





section \<open>Idempotent save\<close>

text \<open>
  Claim C3. If a blob is stored under the sanitized name, \<open>saveCache\<close> returns the
  sentinel \<open>-1\<close>, makes no call other than queries (no archive is created, nothing is
  uploaded), and leaves container and disk as they were. So after a
  save that succeeded, exactly one blob is stored under the sanitized name, a second save
  with the same key returns \<open>-1\<close>, and the container is the same after it: the stored blob
  is not overwritten.
\<close>

theorem saveCache_idempotent:
  "(sanitizeBlobName h pk \<in> name ` set (container w) \<longrightarrow>
      fst (saveCache h paths pk w) = Inr (- 1) \<and>
      container (snd (saveCache h paths pk w)) = container w \<and>
      disk (snd (saveCache h paths pk w)) = disk w \<and>
      filter (\<lambda>ev. \<not> isQuery ev) (trace (snd (saveCache h paths pk w))) =
        filter (\<lambda>ev. \<not> isQuery ev) (trace w))
   \<and> (fst (saveCache h paths pk w) = Inr v \<and> v \<noteq> - 1 \<longrightarrow>
      length (filter (\<lambda>b. name b = sanitizeBlobName h pk)
                (container (snd (saveCache h paths pk w)))) = 1 \<and>
      fst (saveCache h paths pk (snd (saveCache h paths pk w))) = Inr (- 1) \<and>
      container (snd (saveCache h paths pk (snd (saveCache h paths pk w)))) =
        container (snd (saveCache h paths pk w)))"
proof (intro conjI impI)
  assume b: "sanitizeBlobName h pk \<in> name ` set (container w)"
  show "fst (saveCache h paths pk w) = Inr (- 1)"
    and "container (snd (saveCache h paths pk w)) = container w"
    and "disk (snd (saveCache h paths pk w)) = disk w"
    and "filter (\<lambda>ev. \<not> isQuery ev) (trace (snd (saveCache h paths pk w))) =
        filter (\<lambda>ev. \<not> isQuery ev) (trace w)"
    by (rule saveCache_existing [OF b])+
next
  let ?n = "sanitizeBlobName h pk"
  let ?w1 = "snd (saveCache h paths pk w)"
  let ?b = "\<lparr>name = ?n, lastModified = Some (dateNow (env w)),
             metadata = Some [(CACHE_KEY_METADATA, pk),
                              (CREATED_AT_METADATA, dateISO (env w))]\<rparr>"
  assume "fst (saveCache h paths pk w) = Inr v \<and> v \<noteq> - 1"
  then have ok: "fst (saveCache h paths pk w) = Inr v" "v \<noteq> - 1"
    by simp_all
  note s = saveCache_success [OF ok]
  have new: "name ?b \<notin> name ` set (container w)"
    using s(2) by simp
  have stored: "filter (\<lambda>x. name x = ?n) (container ?w1) = [?b]"
    and present: "?n \<in> name ` set (container ?w1)"
    using putBlob_new(1,3) [OF new] s(3) by simp_all
  show "length (filter (\<lambda>b. name b = ?n) (container ?w1)) = 1"
    using stored by simp
  show "fst (saveCache h paths pk ?w1) = Inr (- 1)"
    and "container (snd (saveCache h paths pk ?w1)) = container ?w1"
    by (rule saveCache_existing [OF present])+
qed

theorem saveCache_idempotent_witness:
  "sanitizeBlobName constantDigest (js ''linux-v1'') \<in> name ` set (container worldWithV1)
   \<and> fst (saveCache constantDigest [js ''build''] (js ''linux-v1'') worldWithV1) = Inr (- 1)
   \<and> container (snd (saveCache constantDigest [js ''build''] (js ''linux-v1'') worldWithV1)) =
       [blobV1]
   \<and> fst (saveCache constantDigest [js ''build''] (js ''linux-v1'') worldEmpty) =
       Inr 1700000000000
   \<and> fst (saveCache constantDigest [js ''build''] (js ''linux-v1'')
            (snd (saveCache constantDigest [js ''build''] (js ''linux-v1'') worldEmpty))) =
       Inr (- 1)
   \<and> length (filter (\<lambda>b. name b = sanitizeBlobName constantDigest (js ''linux-v1''))
        (container (snd (saveCache constantDigest [js ''build''] (js ''linux-v1'')
                           worldEmpty)))) = 1"
proof -
  have b: "sanitizeBlobName constantDigest (js ''linux-v1'') \<in> name ` set (container worldWithV1)"
    by (simp add: sanitize_v1 worldWithV1_def blobV1_def)
  have c: "container worldWithV1 = [blobV1]"
    by (simp add: worldWithV1_def)
  note first = saveCache_worldEmpty
  from saveCache_idempotent
         [of constantDigest "js ''linux-v1''" worldWithV1 "[js ''build'']" 0]
       saveCache_idempotent
         [of constantDigest "js ''linux-v1''" worldEmpty "[js ''build'']" 1700000000000]
       b c first
  show ?thesis
    by simp
qed


section \<open>The provider boundary\<close>

text \<open>
  Claim C4 fails on the code. When the body of a download emits an error while it is read,
  the promise that \<open>restoreCache\<close> awaits never settles: the call gives its caller neither
  the absent value nor any other, no warning is logged, and the \<open>finally\<close> block does not
  run, so the temporary directory stays on the disk. An error thrown in a \<open>try\<close> block is
  caught and reported as the claim says (\<open>restoreCache_catches\<close>, \<open>saveCache_catches\<close>), and
  \<open>saveCache\<close> gives a value on every input (\<open>saveCache_returns\<close>).
\<close>

theorem restoreCache_stream_error_escapes:
  "fst (restoreCache constantDigest [js ''build''] (js ''linux-v1'') [] None worldStreamFails) =
     Inl (Unsettled (Error (js ''aborted'')))
   \<and> filter isWarning
        (trace (snd (restoreCache constantDigest [js ''build''] (js ''linux-v1'') [] None
                       worldStreamFails))) = []
   \<and> disk (snd (restoreCache constantDigest [js ''build''] (js ''linux-v1'') [] None
                  worldStreamFails)) \<noteq> []"
  unfolding sanitize_v1 restoreCache_def restoreCache_try_def findMatchingBlob_def
  by (simp add: worldStreamFails_def quietEnvironment_def blobV1_def
        ensureContainerExists_def downloadAndExtract_def downloadBlob_def
        createTempDirectory_def cleanupTempDirectory_def lookupOnlySet_def
        run_defs storage_defs disk_defs js_def List.insert_def)


section \<open>The manifest file\<close>

text \<open>
  Claim C8 fails on the code. When the archiving tool exits with status 2, \<open>createArchive\<close>
  throws before it reaches the \<open>unlink\<close> of the manifest: the manifest file, absent before
  the call, is on the disk after it.
\<close>

theorem createArchive_leaves_manifest:
  "path_join (js ''/tmp/x'') (js ''manifest.txt'') \<notin> set (disk worldTarFails)
   \<and> fst (createArchive (js ''/tmp/x'') [js ''build''] \<lparr>compressionMethod = gzip\<rparr>
            worldTarFails) = Inl (Thrown (Error (js ''Tar failed with exit code 2'')))
   \<and> path_join (js ''/tmp/x'') (js ''manifest.txt'')
       \<in> set (disk (snd (createArchive (js ''/tmp/x'') [js ''build'']
                           \<lparr>compressionMethod = gzip\<rparr> worldTarFails)))"
  by (simp add: worldTarFails_def quietEnvironment_def createArchive_def getTarPath_def
        run_defs disk_defs path_join_def js_def numberToString_def decimal.simps [of 2])

end
